theory Spec2Isabelle
  imports Complex_Main "HOL-Library.Sublist"
begin

section \<open>Python and numpy values\<close>

text \<open>
  The network of \<^verbatim>\<open>Assignment_1/model.py\<close> computes with numpy arrays of float64.
  The embedding idealises float64 arithmetic to the reals: rounding and overflow of
  finite values are not modelled; the one underflow the network meets, that of
  \<^verbatim>\<open>np.exp\<close> inside softmax, is.  A Python exception is a value of \<open>pyerr\<close>; a scalar
  that numpy would deliver as \<^verbatim>\<open>inf\<close> or \<^verbatim>\<open>nan\<close> (it warns, it does not raise) is the
  value \<open>NonFinite\<close> of \<open>pyfloat\<close>.
\<close>

datatype pyerr = ValueError | KeyError | IndexError | ZeroDivisionError | OverflowError
  | AttributeError | MemoryError

type_synonym 'a res = "pyerr + 'a"

definition thenE :: "'a res \<Rightarrow> ('a \<Rightarrow> 'b res) \<Rightarrow> 'b res" where
  "thenE r f = (case r of Inl e \<Rightarrow> Inl e | Inr x \<Rightarrow> f x)"

datatype pyfloat = Fin real | NonFinite

text \<open>
  A two-dimensional array of shape \<open>(nrows, ncols)\<close>, stored row by row as numpy does.
  The column count is kept apart so that the shapes \<open>(0, c)\<close> and \<open>(r, 0)\<close> differ.
  A one-dimensional array is a plain list.
\<close>

datatype mat = Mat (ncols: nat) (rows: "real list list")

definition nrows :: "mat \<Rightarrow> nat" where
  "nrows m = length (rows m)"

definition wf_mat :: "mat \<Rightarrow> bool" where
  "wf_mat m = list_all (\<lambda>r. length r = ncols m) (rows m)"

definition entry :: "mat \<Rightarrow> nat \<Rightarrow> nat \<Rightarrow> real" where
  "entry m i j = rows m ! i ! j"

definition mk_vec :: "nat \<Rightarrow> (nat \<Rightarrow> real) \<Rightarrow> real list" where
  "mk_vec n f = map f [0..<n]"

definition mk_mat :: "nat \<Rightarrow> nat \<Rightarrow> (nat \<Rightarrow> nat \<Rightarrow> real) \<Rightarrow> mat" where
  "mk_mat r c f = Mat c (map (\<lambda>i. mk_vec c (f i)) [0..<r])"

definition column :: "mat \<Rightarrow> nat \<Rightarrow> real list" where
  "column m j = mk_vec (nrows m) (\<lambda>i. entry m i j)"

definition map_mat :: "(real \<Rightarrow> real) \<Rightarrow> mat \<Rightarrow> mat" where
  "map_mat f m = Mat (ncols m) (map (map f) (rows m))"

definition as_row :: "real list \<Rightarrow> mat" where
  \<comment> \<open>broadcasting reads a 1-D array of length \<open>k\<close> as the shape \<open>(1, k)\<close>\<close>
  "as_row v = Mat (length v) [v]"

subsection \<open>Broadcasting\<close>

definition bdim :: "nat \<Rightarrow> nat \<Rightarrow> nat option" where
  "bdim m n = (if m = n then Some m else if m = 1 then Some n
               else if n = 1 then Some m else None)"

definition bidx :: "nat \<Rightarrow> nat \<Rightarrow> nat" where
  "bidx d i = (if d = 1 then 0 else i)"

definition broadcast2 :: "(real \<Rightarrow> real \<Rightarrow> real) \<Rightarrow> mat \<Rightarrow> mat \<Rightarrow> mat res" where
  \<comment> \<open>an elementwise binary operator on two 2-D operands; incompatible shapes raise\<close>
  "broadcast2 f a b =
     (case bdim (nrows a) (nrows b) of
        None \<Rightarrow> Inl ValueError
      | Some r \<Rightarrow>
         (case bdim (ncols a) (ncols b) of
            None \<Rightarrow> Inl ValueError
          | Some c \<Rightarrow>
              Inr (mk_mat r c (\<lambda>i j. f (entry a (bidx (nrows a) i) (bidx (ncols a) j))
                                        (entry b (bidx (nrows b) i) (bidx (ncols b) j))))))"

subsection \<open>The numpy functions the network calls\<close>

definition np_dot :: "mat \<Rightarrow> mat \<Rightarrow> mat res" where
  "np_dot a b =
     (if ncols a \<noteq> nrows b then Inl ValueError
      else Inr (mk_mat (nrows a) (ncols b)
                  (\<lambda>i j. sum_list (map (\<lambda>k. entry a i k * entry b k j) [0..<ncols a]))))"

definition transpose_mat :: "mat \<Rightarrow> mat" where
  "transpose_mat m = mk_mat (ncols m) (nrows m) (\<lambda>i j. entry m j i)"

definition np_max_axis0 :: "mat \<Rightarrow> real list res" where
  \<comment> \<open>\<^verbatim>\<open>np.max(Z, axis=0)\<close>: a reduction without identity, it raises on an empty axis\<close>
  "np_max_axis0 m =
     (if nrows m = 0 then Inl ValueError
      else Inr (mk_vec (ncols m) (\<lambda>j. Max (set (column m j)))))"

definition np_exp :: "real \<Rightarrow> real" where
  \<comment> \<open>\<^verbatim>\<open>np.exp\<close> on a float64: an exponential of at most \<^verbatim>\<open>2 ** -1075\<close>, half the
      least positive float64, is delivered as \<^verbatim>\<open>0.0\<close>; a larger one is taken over the
      reals\<close>
  "np_exp x = (if exp x \<le> 1 / 2 ^ 1075 then 0 else exp x)"

definition np_sum_axis0 :: "mat \<Rightarrow> real list" where
  "np_sum_axis0 m = mk_vec (ncols m) (\<lambda>j. sum_list (column m j))"

definition np_sum_axis1 :: "mat \<Rightarrow> real list" where
  "np_sum_axis1 m = map sum_list (rows m)"

definition np_sum_all :: "mat \<Rightarrow> real" where
  "np_sum_all m = sum_list (map sum_list (rows m))"

definition mask_select :: "mat \<Rightarrow> mat \<Rightarrow> real list" where
  \<comment> \<open>\<^verbatim>\<open>AL[Y > 0]\<close> for equal shapes: the selected entries in row-major order\<close>
  "mask_select al y =
     concat (map (\<lambda>i. map (\<lambda>j. entry al i j)
                        (filter (\<lambda>j. 0 < entry y i j) [0..<ncols al]))
                 [0..<nrows al])"

section \<open>The object heap\<close>

text \<open>
  Arrays are objects: a cache keeps references to the weight and bias arrays, and
  \<^verbatim>\<open>update_parameters\<close> changes them in place.  The heap is the list of the
  2-D arrays allocated so far and an address is an index into it.  A method takes the
  addresses of its array arguments and allocates the arrays it returns; the arrays
  of an expression that stay inside a method are values.
\<close>

type_synonym addr = nat
type_synonym heap = "mat list"

definition alloc :: "heap \<Rightarrow> mat \<Rightarrow> heap \<times> addr" where
  "alloc h m = (h @ [m], length h)"

section \<open>Activations and cost\<close>

definition softmax :: "heap \<Rightarrow> addr \<Rightarrow> (heap \<times> addr \<times> addr) res" where
  "softmax h Z =
     thenE (np_max_axis0 (h ! Z)) (\<lambda>mx.
     thenE (broadcast2 (-) (h ! Z) (as_row mx)) (\<lambda>Z1.
       let exp_z = map_mat np_exp Z1 in
     thenE (broadcast2 (/) exp_z (as_row (np_sum_axis0 exp_z))) (\<lambda>A.
       let (h1, z1) = alloc h Z1;
           (h2, a) = alloc h1 A
       in Inr (h2, a, z1))))"

definition compute_cost :: "heap \<Rightarrow> addr \<Rightarrow> addr \<Rightarrow> pyfloat res" where
  \<comment> \<open>a mask of another shape raises IndexError; \<^verbatim>\<open>1 / AL.shape[1]\<close> divides Python
      integers; the logarithm of a selected entry that is not positive is \<^verbatim>\<open>-inf\<close> or
      \<^verbatim>\<open>nan\<close> and makes the sum non-finite\<close>
  "compute_cost h AL Y =
     (let al = h ! AL; y = h ! Y in
      if nrows y \<noteq> nrows al \<or> ncols y \<noteq> ncols al then Inl IndexError
      else
        let sel = mask_select al y;
            y_pred = map ln sel
        in thenE (broadcast2 (*) (as_row y_pred) y) (\<lambda>p.
             if ncols al = 0 then Inl ZeroDivisionError
             else if list_all (\<lambda>x. 0 < x) sel
               then Inr (Fin (- np_sum_all p * (1 / real (ncols al))))
               else Inr NonFinite))"

section \<open>Dictionaries with string keys\<close>

text \<open>
  The parameters and the gradients are Python dicts keyed by f-strings such as
  \<^verbatim>\<open>f'w{i}'\<close>.  A dict is an association list in insertion order; \<open>fkey\<close> renders the
  key as Python formats an integer.
\<close>

fun digits_of :: "nat \<Rightarrow> string" where
  "digits_of n =
     (if n < 10 then [''0123456789'' ! n]
      else digits_of (n div 10) @ [''0123456789'' ! (n mod 10)])"

declare digits_of.simps [simp del]

definition str_int :: "int \<Rightarrow> string" where
  "str_int i = (if i < 0 then CHR ''-'' # digits_of (nat (- i)) else digits_of (nat i))"

definition fkey :: "string \<Rightarrow> int \<Rightarrow> string" where
  "fkey p i = p @ str_int i"

type_synonym 'v dict = "(string \<times> 'v) list"

definition dict_get :: "'v dict \<Rightarrow> string \<Rightarrow> 'v res" where
  "dict_get d k = (case map_of d k of None \<Rightarrow> Inl KeyError | Some v \<Rightarrow> Inr v)"

fun dict_set :: "'v dict \<Rightarrow> string \<Rightarrow> 'v \<Rightarrow> 'v dict" where
  "dict_set [] k v = [(k, v)]"
| "dict_set ((k', v') # d) k v = (if k' = k then (k, v) # d else (k', v') # dict_set d k v)"

definition py_range :: "int \<Rightarrow> int \<Rightarrow> int list" where
  \<comment> \<open>\<^verbatim>\<open>range(a, b)\<close> for \<open>0 \<le> a\<close>\<close>
  "py_range a b = map int [nat a..<nat b]"

definition py_index :: "'a list \<Rightarrow> int \<Rightarrow> nat res" where
  \<comment> \<open>the position a Python list subscript reads or writes; negative subscripts count
      from the end\<close>
  "py_index xs k =
     (let n = int (length xs) in
      if 0 \<le> k \<and> k < n then Inr (nat k)
      else if - n \<le> k \<and> k < 0 then Inr (nat (n + k))
      else Inl IndexError)"

section \<open>The network object, the random source and the caches\<close>

text \<open>
  \<^verbatim>\<open>self.n_layers\<close> is set by \<open>initialize_parameters\<close> and read by the forward and
  backward passes; reading it before it is set raises AttributeError.
\<close>

record ann =
  n_layers :: "int option"

text \<open>
  numpy's global random state is a parameter of the model: \<open>normal\<close> is the stream of
  standard normal draws \<^verbatim>\<open>randn\<close> will deliver, \<open>drawn\<close> counts the draws taken, and
  \<open>shuffled n\<close> is the order \<^verbatim>\<open>np.random.shuffle\<close> leaves \<^verbatim>\<open>np.arange(n)\<close> in.
  So is what numpy can allocate for the sizes a caller asks \<^verbatim>\<open>randn\<close> for:
  \<open>refused r c\<close> is the exception numpy raises instead of delivering an array of shape
  \<open>(r, c)\<close>, a ValueError for a dimension beyond its index type or a MemoryError when
  the memory is not there, and \<open>None\<close> when it delivers the array.
\<close>

record rng =
  normal :: "nat \<Rightarrow> real"
  drawn :: nat
  shuffled :: "nat \<Rightarrow> nat list"
  refused :: "nat \<Rightarrow> nat \<Rightarrow> pyerr option"

definition randn :: "rng \<Rightarrow> nat \<Rightarrow> nat \<Rightarrow> (mat \<times> rng) res" where
  "randn g r c =
     (case refused g r c of
        Some e \<Rightarrow> Inl e
      | None \<Rightarrow>
          Inr (mk_mat r c (\<lambda>i j. normal g (drawn g + i * c + j)), g\<lparr>drawn := drawn g + r * c\<rparr>))"

text \<open>
  The cache of a layer is a dict with the keys \<^verbatim>\<open>'A'\<close>, \<^verbatim>\<open>'W'\<close>, \<^verbatim>\<open>'b'\<close>, later \<^verbatim>\<open>'Z'\<close>
  and, for the last layer, \<^verbatim>\<open>'Y'\<close>; each value is a reference to an array.
\<close>

record cache =
  cache_A :: addr
  cache_W :: addr
  cache_b :: addr
  cache_Z :: "addr option"
  cache_Y :: "addr option"

definition cache_get :: "addr option \<Rightarrow> addr res" where
  "cache_get v = (case v of None \<Rightarrow> Inl KeyError | Some a \<Rightarrow> Inr a)"

section \<open>Initialisation\<close>

fun init_loop ::
  "int list \<Rightarrow> nat list \<Rightarrow> rng \<Rightarrow> heap \<Rightarrow> addr dict \<Rightarrow> (rng \<times> heap \<times> addr dict) res" where
  "init_loop layer_dims [] g h params = Inr (g, h, params)"
| "init_loop layer_dims (i # rest) g h params =
     (if layer_dims ! i < 0 \<or> layer_dims ! (i - 1) < 0 then Inl ValueError
      else
        thenE (randn g (nat (layer_dims ! i)) (nat (layer_dims ! (i - 1)))) (\<lambda>(w0, g1).
          if layer_dims ! (i - 1) = 0 then Inl ZeroDivisionError
          else
            let w = map_mat (\<lambda>x. x * sqrt (2 / real_of_int (layer_dims ! (i - 1)))) w0;
                (h1, wa) = alloc h w
            in
            thenE (randn g1 (nat (layer_dims ! i)) 1) (\<lambda>(b0, g2).
              let (h2, ba) = alloc h1 b0
              in init_loop layer_dims rest g2 h2
                   (dict_set (dict_set params (fkey ''w'' (int i)) wa)
                      (fkey ''b'' (int i)) ba))))"

definition initialize_parameters ::
  "rng \<Rightarrow> heap \<Rightarrow> int list \<Rightarrow> (ann \<times> rng \<times> heap \<times> addr dict) res" where
  \<comment> \<open>\<^verbatim>\<open>randn\<close> raises on a negative dimension and on a size numpy cannot allocate,
      \<^verbatim>\<open>2 / layer_dims[i - 1]\<close> divides Python integers; the unused array \<^verbatim>\<open>b = np.zeros(...)\<close> is left out; when the
      loop raises, the assignment to \<^verbatim>\<open>self.n_layers\<close> has happened but only the
      exception is returned\<close>
  "initialize_parameters g h layer_dims =
     thenE (init_loop layer_dims [1..<length layer_dims] g h [])
       (\<lambda>(g', h', params). Inr (\<lparr>n_layers = Some (int (length layer_dims) - 1)\<rparr>, g', h', params))"

section \<open>Forward pass\<close>

definition linear_forward :: "heap \<Rightarrow> addr \<Rightarrow> addr \<Rightarrow> addr \<Rightarrow> (heap \<times> addr \<times> cache) res" where
  "linear_forward h A W b =
     thenE (np_dot (h ! W) (h ! A)) (\<lambda>d.
     thenE (broadcast2 (+) d (h ! b)) (\<lambda>Z.
       let (h1, z) = alloc h Z
       in Inr (h1, z, \<lparr>cache_A = A, cache_W = W, cache_b = b, cache_Z = None, cache_Y = None\<rparr>)))"

text \<open>
  \<^verbatim>\<open>np.vectorize\<close> without \<^verbatim>\<open>otypes\<close> refuses an input of size 0 and takes the type of
  its output from the function's value at the first entry of the input.  The lambda of
  \<open>relu\<close> returns the float \<open>x\<close> when \<open>x > 0\<close> and the integer \<open>0\<close> otherwise: when the
  first entry is not positive the output is an int64 array and every positive entry is
  truncated to an integer, which overflows from \<open>2^63\<close> on.
\<close>

definition relu_func :: "mat \<Rightarrow> mat res" where
  "relu_func z =
     (if nrows z * ncols z = 0 then Inl ValueError
      else if 0 < entry z 0 0 then Inr (map_mat (\<lambda>x. if 0 < x then x else 0) z)
      else if list_ex (\<lambda>x. 2 ^ 63 \<le> x) (concat (rows z)) then Inl OverflowError
      else Inr (map_mat (\<lambda>x. if 0 < x then of_int \<lfloor>x\<rfloor> else 0) z))"

definition relu :: "heap \<Rightarrow> addr \<Rightarrow> (heap \<times> addr \<times> addr) res" where
  \<comment> \<open>the activation cache is the input array itself\<close>
  "relu h Z =
     thenE (relu_func (h ! Z)) (\<lambda>A.
       let (h1, a) = alloc h A in Inr (h1, a, Z))"

definition linear_activation_forward ::
  "heap \<Rightarrow> addr \<Rightarrow> addr \<Rightarrow> addr \<Rightarrow> string \<Rightarrow> (heap \<times> addr \<times> cache) res" where
  "linear_activation_forward h A_prev W B activation =
     thenE (linear_forward h A_prev W B) (\<lambda>(h1, Z, linear_cache).
       if activation = ''relu''
       then thenE (relu h1 Z) (\<lambda>(h2, A, activation_cache).
              Inr (h2, A, linear_cache\<lparr>cache_Z := Some activation_cache\<rparr>))
       else thenE (softmax h1 Z) (\<lambda>(h2, A, activation_cache).
              Inr (h2, A, linear_cache\<lparr>cache_Z := Some activation_cache\<rparr>)))"

fun forward_loop ::
  "addr dict \<Rightarrow> int list \<Rightarrow> heap \<Rightarrow> addr \<Rightarrow> cache list \<Rightarrow> (heap \<times> addr \<times> cache list) res" where
  "forward_loop parameters [] h A_prev caches = Inr (h, A_prev, caches)"
| "forward_loop parameters (layer_index # rest) h A_prev caches =
     thenE (dict_get parameters (fkey ''w'' layer_index)) (\<lambda>w_i.
     thenE (dict_get parameters (fkey ''b'' layer_index)) (\<lambda>b_i.
     thenE (linear_activation_forward h A_prev w_i b_i ''relu'') (\<lambda>(h1, A, cache_i).
       forward_loop parameters rest h1 A (caches @ [cache_i]))))"

definition L_model_forward ::
  "ann \<Rightarrow> heap \<Rightarrow> addr \<Rightarrow> addr dict \<Rightarrow> bool \<Rightarrow> (heap \<times> addr \<times> cache list) res" where
  "L_model_forward self h X parameters use_batchnorm =
     (case n_layers self of
        None \<Rightarrow> Inl AttributeError
      | Some n \<Rightarrow>
          thenE (forward_loop parameters (py_range 1 n) h X []) (\<lambda>(h1, A_prev, caches).
          thenE (dict_get parameters (fkey ''w'' n)) (\<lambda>w_output.
          thenE (dict_get parameters (fkey ''b'' n)) (\<lambda>b_output.
          thenE (linear_activation_forward h1 A_prev w_output b_output ''softmax'')
            (\<lambda>(h2, z_output, cache_output).
               Inr (h2, z_output, caches @ [cache_output]))))))"

section \<open>Backward pass\<close>

text \<open>
  A gradient dict holds 2-D arrays (\<^verbatim>\<open>dA\<close>, \<^verbatim>\<open>dW\<close>) and the 1-D bias gradient
  \<^verbatim>\<open>db = (1 / m) * dZ.sum(1)\<close>.  The heap holds the 2-D arrays; a 1-D array is never
  written in place and is carried by value.
\<close>

datatype grad = GMat addr | GVec "real list"

definition linear_backward ::
  "heap \<Rightarrow> addr \<Rightarrow> cache \<Rightarrow> (heap \<times> addr \<times> addr \<times> real list) res" where
  \<comment> \<open>\<^verbatim>\<open>1 / m\<close> divides Python integers\<close>
  "linear_backward h dZ c =
     (let m = ncols (h ! cache_A c) in
      if m = 0 then Inl ZeroDivisionError
      else
        thenE (np_dot (h ! dZ) (transpose_mat (h ! cache_A c))) (\<lambda>d.
          let dW = map_mat (\<lambda>x. (1 / real m) * x) d;
              db = map (\<lambda>x. (1 / real m) * x) (np_sum_axis1 (h ! dZ))
          in
        thenE (np_dot (transpose_mat (h ! cache_W c)) (h ! dZ)) (\<lambda>dA_prev.
          let (h1, dw) = alloc h dW;
              (h2, da) = alloc h1 dA_prev
          in Inr (h2, da, dw, db))))"

definition d_relu :: "mat \<Rightarrow> mat res" where
  \<comment> \<open>\<^verbatim>\<open>np.vectorize(lambda x: 1 if x > 0 else 0)\<close>: always an integer array\<close>
  "d_relu z =
     (if nrows z * ncols z = 0 then Inl ValueError
      else Inr (map_mat (\<lambda>x. if 0 < x then 1 else 0) z))"

definition relu_backward :: "heap \<Rightarrow> addr \<Rightarrow> cache \<Rightarrow> (heap \<times> addr) res" where
  "relu_backward h dA activation_cache =
     thenE (cache_get (cache_Z activation_cache)) (\<lambda>Z.
     thenE (d_relu (h ! Z)) (\<lambda>dZ.
     thenE (broadcast2 (*) (h ! dA) dZ) (\<lambda>r.
       let (h1, a) = alloc h r in Inr (h1, a))))"

definition softmax_backward :: "heap \<Rightarrow> addr \<Rightarrow> cache \<Rightarrow> (heap \<times> addr) res" where
  "softmax_backward h dA activation_cache =
     thenE (cache_get (cache_Z activation_cache)) (\<lambda>Z.
     thenE (cache_get (cache_Y activation_cache)) (\<lambda>Y.
     thenE (softmax h Z) (\<lambda>(h1, A, _).
     thenE (broadcast2 (-) (h1 ! A) (h1 ! Y)) (\<lambda>r.
       let (h2, a) = alloc h1 r in Inr (h2, a)))))"

definition linear_activation_backward ::
  "heap \<Rightarrow> addr \<Rightarrow> cache \<Rightarrow> string \<Rightarrow> (heap \<times> addr \<times> addr \<times> real list) res" where
  "linear_activation_backward h dA c activation =
     (if activation = ''relu''
      then thenE (relu_backward h dA c) (\<lambda>(h1, dZ). linear_backward h1 dZ c)
      else thenE (softmax_backward h dA c) (\<lambda>(h1, dZ). linear_backward h1 dZ c))"

definition store_grads :: "grad dict \<Rightarrow> int \<Rightarrow> addr \<Rightarrow> addr \<Rightarrow> real list \<Rightarrow> grad dict" where
  \<comment> \<open>the three assignments \<^verbatim>\<open>grads[f'dA{l}'] = dA_prev\<close>, \<^verbatim>\<open>grads[f'dW{l}'] = dW\<close>,
      \<^verbatim>\<open>grads[f'db{l}'] = db\<close>\<close>
  "store_grads grads l dA_prev dW db =
     dict_set (dict_set (dict_set grads (fkey ''dA'' l) (GMat dA_prev))
                 (fkey ''dW'' l) (GMat dW))
       (fkey ''db'' l) (GVec db)"

fun backward_loop ::
  "int \<Rightarrow> int \<Rightarrow> cache list \<Rightarrow> int list \<Rightarrow> heap \<Rightarrow> addr \<Rightarrow> grad dict \<Rightarrow> (heap \<times> grad dict) res"
  where
  "backward_loop n index caches [] h dA_prev grads = Inr (h, grads)"
| "backward_loop n index caches (i # rest) h dA_prev grads =
     thenE (py_index caches (index - i)) (\<lambda>k.
     thenE (linear_activation_backward h dA_prev (caches ! k) ''relu'') (\<lambda>(h1, dA_prev', dW, db).
       backward_loop n index caches rest h1 dA_prev' (store_grads grads (n - i) dA_prev' dW db)))"

definition L_model_backward ::
  "ann \<Rightarrow> heap \<Rightarrow> addr \<Rightarrow> addr \<Rightarrow> cache list \<Rightarrow> (heap \<times> grad dict \<times> cache list) res" where
  \<comment> \<open>\<^verbatim>\<open>caches[index]['Y'] = Y\<close> changes the caller's cache: the list is returned\<close>
  "L_model_backward self h AL Y caches =
     (case n_layers self of
        None \<Rightarrow> Inl AttributeError
      | Some n \<Rightarrow>
          let index = n - 1 in
          thenE (py_index caches index) (\<lambda>k.
            let caches1 = caches[k := (caches ! k)\<lparr>cache_Y := Some Y\<rparr>] in
          thenE (linear_activation_backward h AL (caches1 ! k) ''softmax'') (\<lambda>(h1, dA_prev, dW, db).
          thenE (backward_loop n index caches1 (py_range 1 (index + 1)) h1 dA_prev
                   (store_grads [] n dA_prev dW db)) (\<lambda>(h2, grads).
            Inr (h2, grads, caches1)))))"

section \<open>Parameter update\<close>

definition inplace_sub :: "mat \<Rightarrow> mat \<Rightarrow> mat res" where
  \<comment> \<open>\<^verbatim>\<open>a -= r\<close> on arrays: the broadcast result must have the shape of \<^verbatim>\<open>a\<close>\<close>
  "inplace_sub a r =
     thenE (broadcast2 (-) a r) (\<lambda>d.
       if nrows d = nrows a \<and> ncols d = ncols a then Inr d else Inl ValueError)"

definition grad_value :: "heap \<Rightarrow> grad \<Rightarrow> mat" where
  \<comment> \<open>the array as an operand of a broadcast\<close>
  "grad_value h g = (case g of GMat a \<Rightarrow> h ! a | GVec v \<Rightarrow> as_row v)"

definition reshape_column :: "heap \<Rightarrow> grad \<Rightarrow> mat" where
  \<comment> \<open>\<^verbatim>\<open>.reshape(-1, 1)\<close>: the entries in row-major order as one column\<close>
  "reshape_column h g =
     (case g of GMat a \<Rightarrow> Mat 1 (map (\<lambda>x. [x]) (concat (rows (h ! a))))
              | GVec v \<Rightarrow> Mat 1 (map (\<lambda>x. [x]) v))"

fun update_loop :: "addr dict \<Rightarrow> grad dict \<Rightarrow> real \<Rightarrow> int list \<Rightarrow> heap \<Rightarrow> heap res" where
  "update_loop parameters grads learning_rate [] h = Inr h"
| "update_loop parameters grads learning_rate (layer # rest) h =
     thenE (dict_get parameters (fkey ''w'' layer)) (\<lambda>w.
     thenE (dict_get grads (fkey ''dW'' layer)) (\<lambda>dW.
     thenE (inplace_sub (h ! w) (map_mat (\<lambda>x. learning_rate * x) (grad_value h dW))) (\<lambda>w'.
       let h1 = h[w := w'] in
     thenE (dict_get parameters (fkey ''b'' layer)) (\<lambda>b.
     thenE (dict_get grads (fkey ''db'' layer)) (\<lambda>db.
     thenE (inplace_sub (h1 ! b) (map_mat (\<lambda>x. learning_rate * x) (reshape_column h1 db))) (\<lambda>b'.
       update_loop parameters grads learning_rate rest (h1[b := b'])))))))"

definition update_parameters ::
  "heap \<Rightarrow> addr dict \<Rightarrow> grad dict \<Rightarrow> real \<Rightarrow> (heap \<times> addr dict) res" where
  \<comment> \<open>the arrays are changed in place; the dict keeps its keys and its references\<close>
  "update_parameters h parameters grads learning_rate =
     (let layers_dim = int (length parameters div 2) in
      thenE (update_loop parameters grads learning_rate (py_range 1 (layers_dim + 1)) h)
        (\<lambda>h'. Inr (h', parameters)))"

section \<open>Accuracy\<close>

definition argmax_list :: "real list \<Rightarrow> nat" where
  \<comment> \<open>the first position of the maximum\<close>
  "argmax_list xs = length (takeWhile (\<lambda>x. x \<noteq> Max (set xs)) xs)"

definition np_argmax_axis0 :: "mat \<Rightarrow> nat list res" where
  "np_argmax_axis0 m =
     (if nrows m = 0 then Inl ValueError
      else Inr (map (\<lambda>j. argmax_list (column m j)) [0..<ncols m]))"

definition np_equal :: "nat list \<Rightarrow> nat list \<Rightarrow> bool list res" where
  \<comment> \<open>two 1-D operands, broadcast\<close>
  "np_equal y a =
     (case bdim (length y) (length a) of
        None \<Rightarrow> Inl ValueError
      | Some n \<Rightarrow> Inr (map (\<lambda>i. y ! bidx (length y) i = a ! bidx (length a) i) [0..<n]))"

definition predict :: "ann \<Rightarrow> heap \<Rightarrow> addr \<Rightarrow> addr \<Rightarrow> addr dict \<Rightarrow> (heap \<times> pyfloat) res" where
  \<comment> \<open>the count is a numpy integer: dividing it by \<^verbatim>\<open>len(y) = 0\<close> gives \<^verbatim>\<open>nan\<close>\<close>
  "predict self h X Y parameters =
     thenE (L_model_forward self h X parameters False) (\<lambda>(h1, y_preds, caches).
     thenE (np_argmax_axis0 (h1 ! y_preds)) (\<lambda>a.
     thenE (np_argmax_axis0 (h1 ! Y)) (\<lambda>y.
     thenE (np_equal y a) (\<lambda>eq.
       if length y = 0 then Inr (h1, NonFinite)
       else Inr (h1, Fin (real (length (filter id eq)) / real (length y)))))))"

definition print_overall_accuracy ::
  "ann \<Rightarrow> heap \<Rightarrow> addr dict \<Rightarrow> (addr \<times> addr) option \<Rightarrow> (addr \<times> addr) option \<Rightarrow>
     (addr \<times> addr) option \<Rightarrow> heap res" where
  \<comment> \<open>the keyword pairs \<^verbatim>\<open>X_train, Y_train\<close>, \<^verbatim>\<open>X_validation, Y_validation\<close> and
      \<^verbatim>\<open>X_test, Y_test\<close>; printing is not modelled, the calls of \<open>predict\<close> are\<close>
  "print_overall_accuracy self h params train validation test =
     thenE (case train of None \<Rightarrow> Inr h
            | Some (X, Y) \<Rightarrow> thenE (predict self h X Y params) (\<lambda>(h', _). Inr h')) (\<lambda>h1.
     thenE (case validation of None \<Rightarrow> Inr h1
            | Some (X, Y) \<Rightarrow> thenE (predict self h1 X Y params) (\<lambda>(h', _). Inr h')) (\<lambda>h2.
     (case test of None \<Rightarrow> Inr h2
      | Some (X, Y) \<Rightarrow> thenE (predict self h2 X Y params) (\<lambda>(h', _). Inr h'))))"

section \<open>Training loop\<close>

definition EPSILON :: real where
  "EPSILON = 1 / 1000"

definition np_inf :: pyfloat where
  "np_inf = NonFinite"

definition within_epsilon :: "pyfloat \<Rightarrow> pyfloat \<Rightarrow> bool" where
  \<comment> \<open>\<^verbatim>\<open>np.absolute(prev_val_acc - acc) < EPSILON\<close>: false when an operand is not finite\<close>
  "within_epsilon prev acc =
     (case prev of
        Fin p \<Rightarrow> (case acc of Fin a \<Rightarrow> \<bar>p - a\<bar> < EPSILON | NonFinite \<Rightarrow> False)
      | NonFinite \<Rightarrow> False)"

definition py_fmod :: "real \<Rightarrow> real \<Rightarrow> real" where
  \<comment> \<open>Python's \<^verbatim>\<open>%\<close> on floats, for a positive divisor\<close>
  "py_fmod x y = x - y * of_int \<lfloor>x / y\<rfloor>"

definition sampling_point :: "nat \<Rightarrow> bool" where
  \<comment> \<open>\<^verbatim>\<open>(index / 500) % 100 == 0\<close>\<close>
  "sampling_point index = (py_fmod (real index / 500) 100 = 0)"

definition take_columns :: "mat \<Rightarrow> nat list \<Rightarrow> mat res" where
  \<comment> \<open>\<^verbatim>\<open>X[:, ind]\<close> with an index array\<close>
  "take_columns m ind =
     (if list_ex (\<lambda>j. ncols m \<le> j) ind then Inl IndexError
      else Inr (mk_mat (nrows m) (length ind) (\<lambda>i j. entry m i (ind ! j))))"

definition slice_columns :: "mat \<Rightarrow> nat \<Rightarrow> nat \<Rightarrow> mat" where
  \<comment> \<open>\<^verbatim>\<open>X[:, lo:hi]\<close> for \<open>0 \<le> lo\<close> and \<open>0 \<le> hi\<close>; a slice clips at the array's end\<close>
  "slice_columns m lo hi =
     (let hi' = min hi (ncols m); lo' = min lo hi'
      in mk_mat (nrows m) (hi' - lo') (\<lambda>i j. entry m i (lo' + j)))"

definition batch_starts :: "nat \<Rightarrow> int \<Rightarrow> nat list res" where
  \<comment> \<open>\<^verbatim>\<open>range(0, n, batch_size)\<close>: a zero step raises, a negative step gives no index\<close>
  "batch_starts n batch_size =
     (if batch_size = 0 then Inl ValueError
      else if batch_size < 0 then Inr []
      else Inr (map (\<lambda>k. k * nat batch_size) [0..<(n + nat batch_size - 1) div nat batch_size]))"

record trainer =
  heap_of :: heap
  params :: "addr dict"
  prev_val_acc :: pyfloat
  converged :: bool
  training_step :: nat
  history :: "pyfloat list"
  accuracy_history :: "pyfloat list"

text \<open>
  The data a run fixes before its loops: the network object, the four arrays of the
  split, the learning rate and the batch size.
\<close>

record run =
  net :: ann
  X_train :: addr
  Y_train :: addr
  X_validation :: addr
  Y_validation :: addr
  learning_rate :: real
  batch_size :: int

text \<open>
  The body of the inner \<^verbatim>\<open>for index in range(...)\<close> in three parts: \<open>take_batch\<close>
  slices the batch, \<open>sample\<close> is the block under \<^verbatim>\<open>if (index / 500) % 100 == 0\<close>, and
  \<open>batch_body\<close> is one pass through the body.  The Boolean tells whether the pass left
  the loop by \<^verbatim>\<open>break\<close>.
\<close>

definition take_batch :: "run \<Rightarrow> heap \<Rightarrow> nat \<Rightarrow> heap \<times> addr \<times> addr" where
  "take_batch r h index =
     (let hi = nat (min (int index + batch_size r) (int (ncols (h ! X_train r))));
          (h1, batch_x) = alloc h (slice_columns (h ! X_train r) index hi);
          hi_y = nat (min (int index + batch_size r) (int (ncols (h1 ! Y_train r))));
          (h2, batch_y) = alloc h1 (slice_columns (h1 ! Y_train r) index hi_y)
      in (h2, batch_x, batch_y))"

definition sample :: "run \<Rightarrow> trainer \<Rightarrow> heap \<Rightarrow> addr \<Rightarrow> addr \<Rightarrow> (bool \<times> trainer) res" where
  "sample r t h z_output batch_y =
     thenE (predict (net r) h (X_validation r) (Y_validation r) (params t)) (\<lambda>(h1, acc).
     thenE (compute_cost h1 z_output batch_y) (\<lambda>cost.
       if within_epsilon (prev_val_acc t) acc
       then Inr (True, t\<lparr>heap_of := h1, converged := True\<rparr>)
       else Inr (False, t\<lparr>heap_of := h1, prev_val_acc := acc,
                          training_step := training_step t + 1,
                          history := history t @ [cost],
                          accuracy_history := accuracy_history t @ [acc]\<rparr>)))"

definition batch_body :: "run \<Rightarrow> trainer \<Rightarrow> nat \<Rightarrow> (bool \<times> trainer) res" where
  "batch_body r t index =
     (let (h2, batch_x, batch_y) = take_batch r (heap_of t) index in
      thenE (L_model_forward (net r) h2 batch_x (params t) False) (\<lambda>(h3, z_output, caches).
      thenE (if sampling_point index then sample r t h3 z_output batch_y
             else Inr (False, t\<lparr>heap_of := h3\<rparr>)) (\<lambda>(stop, t1).
        if stop then Inr (True, t1)
        else
          thenE (L_model_backward (net r) (heap_of t1) z_output batch_y caches) (\<lambda>(h5, grads, _).
          thenE (update_parameters h5 (params t1) grads (learning_rate r)) (\<lambda>(h6, params').
            Inr (False, t1\<lparr>heap_of := h6, params := params'\<rparr>))))))"

fun batch_loop :: "run \<Rightarrow> nat list \<Rightarrow> trainer \<Rightarrow> trainer res" where
  "batch_loop r [] t = Inr t"
| "batch_loop r (index # rest) t =
     thenE (batch_body r t index) (\<lambda>(stop, t1).
       if stop then Inr t1 else batch_loop r rest t1)"

fun epoch_loop :: "run \<Rightarrow> nat list \<Rightarrow> trainer \<Rightarrow> trainer res" where
  "epoch_loop r [] t = Inr t"
| "epoch_loop r (epoch # rest) t =
     (if converged t
      then thenE (print_overall_accuracy (net r) (heap_of t) (params t)
                    (Some (X_train r, Y_train r)) (Some (X_validation r, Y_validation r)) None)
             (\<lambda>h. Inr (t\<lparr>heap_of := h\<rparr>))
      else
        thenE (batch_starts (ncols (heap_of t ! X_train r)) (batch_size r)) (\<lambda>starts.
        thenE (batch_loop r starts t) (\<lambda>t1. epoch_loop r rest t1)))"

definition L_layer_model ::
  "rng \<Rightarrow> heap \<Rightarrow> addr \<Rightarrow> addr \<Rightarrow> int list \<Rightarrow> real \<Rightarrow> int \<Rightarrow> int \<Rightarrow>
     (heap \<times> addr dict \<times> pyfloat list) res" where
  \<comment> \<open>the unused \<^verbatim>\<open>num_classes = len(np.unique(Y))\<close> is left out; the size of the
      validation split \<^verbatim>\<open>int(np.ceil(0.2 * X.shape[1]))\<close> is taken over the reals\<close>
  "L_layer_model g h X Y layers_dims lr num_iterations bs =
     (let n = ncols (h ! X);
          ind = shuffled g n;
          k = nat \<lceil>(2 / 10) * real n\<rceil>
      in
      thenE (take_columns (h ! X) (take k ind)) (\<lambda>xv.
        let (h1, X_val) = alloc h xv in
      thenE (take_columns (h1 ! Y) (take k ind)) (\<lambda>yv.
        let (h2, Y_val) = alloc h1 yv in
      thenE (take_columns (h2 ! X) (drop k ind)) (\<lambda>xt.
        let (h3, X_tr) = alloc h2 xt in
      thenE (take_columns (h3 ! Y) (drop k ind)) (\<lambda>yt.
        let (h4, Y_tr) = alloc h3 yt in
      thenE (initialize_parameters g h4 layers_dims) (\<lambda>(self, g', h5, ps).
      thenE (epoch_loop
               \<lparr>net = self, X_train = X_tr, Y_train = Y_tr, X_validation = X_val,
                Y_validation = Y_val, learning_rate = lr, batch_size = bs\<rparr>
               (map nat (py_range 0 num_iterations))
               \<lparr>heap_of = h5, params = ps, prev_val_acc = np_inf, converged = False,
                training_step = 0, history = [], accuracy_history = []\<rparr>) (\<lambda>t.
        Inr (heap_of t, params t, history t))))))))"

definition start_training ::
  "rng \<Rightarrow> heap \<Rightarrow> addr \<Rightarrow> addr \<Rightarrow> int list \<Rightarrow> real \<Rightarrow> int \<Rightarrow> (run \<times> trainer) res" where
  \<comment> \<open>\<^verbatim>\<open>L_layer_model\<close> up to its loops: the split, the initialisation and the first
      values of the loop variables\<close>
  "start_training g h X Y layers_dims lr bs =
     (let n = ncols (h ! X);
          ind = shuffled g n;
          k = nat \<lceil>(2 / 10) * real n\<rceil>
      in
      thenE (take_columns (h ! X) (take k ind)) (\<lambda>xv.
        let (h1, X_val) = alloc h xv in
      thenE (take_columns (h1 ! Y) (take k ind)) (\<lambda>yv.
        let (h2, Y_val) = alloc h1 yv in
      thenE (take_columns (h2 ! X) (drop k ind)) (\<lambda>xt.
        let (h3, X_tr) = alloc h2 xt in
      thenE (take_columns (h3 ! Y) (drop k ind)) (\<lambda>yt.
        let (h4, Y_tr) = alloc h3 yt in
      thenE (initialize_parameters g h4 layers_dims) (\<lambda>(self, g', h5, ps).
        Inr (\<lparr>net = self, X_train = X_tr, Y_train = Y_tr, X_validation = X_val,
              Y_validation = Y_val, learning_rate = lr, batch_size = bs\<rparr>,
             \<lparr>heap_of = h5, params = ps, prev_val_acc = np_inf, converged = False,
              training_step = 0, history = [], accuracy_history = []\<rparr>)))))))"

section \<open>Softmax, as the specification words it\<close>

definition shift_columns :: "mat \<Rightarrow> mat" where
  \<comment> \<open>the input minus its per-column maximum\<close>
  "shift_columns z =
     mk_mat (nrows z) (ncols z) (\<lambda>i j. entry z i j - Max (set (column z j)))"

definition softmax_value :: "mat \<Rightarrow> mat" where
  \<comment> \<open>the exponentials of the shifted input, each column normalised to sum 1\<close>
  "softmax_value z =
     mk_mat (nrows z) (ncols z)
       (\<lambda>i j. np_exp (entry (shift_columns z) i j) /
              sum_list (map np_exp (column (shift_columns z) j)))"

section \<open>The forward engine, as the specification words it\<close>

text \<open>
  The layer units of an \<open>L\<close>-layer network in order: ReLU for the layers \<open>1\<close> to
  \<open>L - 1\<close>, softmax for layer \<open>L\<close>.  \<open>apply_layers\<close> runs the units of a plan one after the
  other, each on the activation of the one before, and lists their caches in that
  order.
\<close>

definition layer_plan :: "int \<Rightarrow> (int \<times> string) list" where
  "layer_plan L = map (\<lambda>i. (i, ''relu'')) (py_range 1 L) @ [(L, ''softmax'')]"

fun apply_layers ::
  "addr dict \<Rightarrow> (int \<times> string) list \<Rightarrow> heap \<Rightarrow> addr \<Rightarrow> (heap \<times> addr \<times> cache list) res" where
  "apply_layers parameters [] h A = Inr (h, A, [])"
| "apply_layers parameters ((i, activation) # rest) h A =
     thenE (dict_get parameters (fkey ''w'' i)) (\<lambda>W.
     thenE (dict_get parameters (fkey ''b'' i)) (\<lambda>b.
     thenE (linear_activation_forward h A W b activation) (\<lambda>(h1, A1, c).
     thenE (apply_layers parameters rest h1 A1) (\<lambda>(h2, AL, cs).
       Inr (h2, AL, c # cs)))))"

section \<open>Categorical cross-entropy, as the specification words it\<close>

definition one_hot :: "real list \<Rightarrow> bool" where
  "one_hot xs = (length (filter (\<lambda>x. x = 1) xs) = 1 \<and> list_all (\<lambda>x. x = 0 \<or> x = 1) xs)"

definition true_class :: "mat \<Rightarrow> nat \<Rightarrow> nat" where
  "true_class y j = length (takeWhile (\<lambda>x. x \<noteq> 1) (column y j))"

definition cross_entropy :: "mat \<Rightarrow> mat \<Rightarrow> real" where
  "cross_entropy al y =
     - (sum_list (map (\<lambda>j. ln (entry al (true_class y j) j)) [0..<ncols y])) / real (ncols y)"

section \<open>An example network\<close>

text \<open>
  Two layers, one feature, two classes, a batch of one example.  The heap holds the
  input at address 0, the parameters at the addresses 1 to 4 and the labels at address 5;
  the other constants are the heaps, caches and gradients the passes produce from it.
\<close>

definition ex_net :: ann where
  "ex_net = \<lparr>n_layers = Some 2\<rparr>"

definition ex_params :: "addr dict" where
  "ex_params = [(''w1'', 1), (''b1'', 2), (''w2'', 3), (''b2'', 4)]"

definition ex_heap :: heap where
  "ex_heap = [Mat 1 [[1]], Mat 1 [[1]], Mat 1 [[0]], Mat 1 [[0], [0]], Mat 1 [[0], [0]],
              Mat 1 [[1], [0]]]"

definition ex_caches :: "cache list" where
  "ex_caches =
     [\<lparr>cache_A = 0, cache_W = 1, cache_b = 2, cache_Z = Some 6, cache_Y = None\<rparr>,
      \<lparr>cache_A = 7, cache_W = 3, cache_b = 4, cache_Z = Some 9, cache_Y = None\<rparr>]"

definition ex_heap_forward :: heap where
  "ex_heap_forward =
     ex_heap @ [Mat 1 [[1]], Mat 1 [[1]], Mat 1 [[0], [0]], Mat 1 [[0], [0]],
                Mat 1 [[1 / 2], [1 / 2]]]"

definition ex_heap_backward :: heap where
  "ex_heap_backward =
     ex_heap_forward @
       [Mat 1 [[0], [0]], Mat 1 [[1 / 2], [1 / 2]], Mat 1 [[- 1 / 2], [1 / 2]],
        Mat 1 [[- 1 / 2], [1 / 2]], Mat 1 [[0]], Mat 1 [[0]], Mat 1 [[0]], Mat 1 [[0]]]"

definition ex_grads :: "grad dict" where
  "ex_grads =
     [(''dA2'', GMat 15), (''dW2'', GMat 14), (''db2'', GVec [- 1 / 2, 1 / 2]),
      (''dA1'', GMat 18), (''dW1'', GMat 17), (''db1'', GVec [0])]"

text \<open>
  A random source that draws zeros, leaves the order alone and delivers every array
  whose dimensions fit numpy's index type, a run on the example
  arrays (the one example serves as training and as validation split) and a trainer
  state that has recorded one sample with validation accuracy 1.
\<close>

definition ex_rng :: rng where
  "ex_rng = \<lparr>normal = (\<lambda>k. 0), drawn = 0, shuffled = (\<lambda>n. [0..<n]),
              refused = (\<lambda>r c. if 2 ^ 63 \<le> r \<or> 2 ^ 63 \<le> c then Some ValueError else None)\<rparr>"

definition ex_run :: run where
  "ex_run = \<lparr>net = ex_net, X_train = 0, Y_train = 5, X_validation = 0, Y_validation = 5,
             learning_rate = 1, batch_size = 1\<rparr>"

definition ex_trainer :: trainer where
  "ex_trainer = \<lparr>heap_of = ex_heap, params = ex_params, prev_val_acc = Fin 1,
                 converged = False, training_step = 1, history = [Fin (ln 2)],
                 accuracy_history = [Fin 1]\<rparr>"

text \<open>
  The initial trainer state of a run on the example arrays, and what one pass through
  the loop body makes of the heap: the batch slices, the arrays of the forward pass on
  the batch, those of the forward pass on the validation split, the arrays of the
  backward pass, and the parameters after the update.
\<close>

definition ex_trainer0 :: trainer where
  "ex_trainer0 = \<lparr>heap_of = ex_heap, params = ex_params, prev_val_acc = np_inf,
                  converged = False, training_step = 0, history = [],
                  accuracy_history = []\<rparr>"

definition ex_heap_batch :: heap where
  "ex_heap_batch = ex_heap @ [Mat 1 [[1]], Mat 1 [[1], [0]]]"

definition ex_heap_batch_forward :: heap where
  "ex_heap_batch_forward =
     ex_heap_batch @ [Mat 1 [[1]], Mat 1 [[1]], Mat 1 [[0], [0]], Mat 1 [[0], [0]],
                      Mat 1 [[1 / 2], [1 / 2]]]"

definition ex_heap_sampled :: heap where
  "ex_heap_sampled =
     ex_heap_batch_forward @ [Mat 1 [[1]], Mat 1 [[1]], Mat 1 [[0], [0]], Mat 1 [[0], [0]],
                              Mat 1 [[1 / 2], [1 / 2]]]"

definition ex_batch_caches :: "cache list" where
  "ex_batch_caches =
     [\<lparr>cache_A = 6, cache_W = 1, cache_b = 2, cache_Z = Some 8, cache_Y = None\<rparr>,
      \<lparr>cache_A = 9, cache_W = 3, cache_b = 4, cache_Z = Some 11, cache_Y = None\<rparr>]"

definition ex_heap_gradients :: heap where
  "ex_heap_gradients =
     ex_heap_sampled @
       [Mat 1 [[0], [0]], Mat 1 [[1 / 2], [1 / 2]], Mat 1 [[- 1 / 2], [1 / 2]],
        Mat 1 [[- 1 / 2], [1 / 2]], Mat 1 [[0]], Mat 1 [[0]], Mat 1 [[0]], Mat 1 [[0]]]"

definition ex_batch_grads :: "grad dict" where
  "ex_batch_grads =
     [(''dA2'', GMat 22), (''dW2'', GMat 21), (''db2'', GVec [- 1 / 2, 1 / 2]),
      (''dA1'', GMat 25), (''dW1'', GMat 24), (''db1'', GVec [0])]"

definition ex_heap_trained :: heap where
  "ex_heap_trained =
     ex_heap_gradients[3 := Mat 1 [[1 / 2], [- 1 / 2]], 4 := Mat 1 [[1 / 2], [- 1 / 2]]]"

section \<open>An example run\<close>

text \<open>
  A run of \<open>L_layer_model\<close> from its entry: two examples of one feature, both of class
  0, a network of one layer, the random source \<open>ex_rng\<close>, learning rate 1, at most three
  epochs, batches of one example.  The first example becomes the validation split, the
  second the training split.  The constants are the heaps and trainer states the run
  passes through: \<open>ex2_pass\<close> holds the arrays of the first pass through the loop body
  before its backward pass, \<open>ex2_forward\<close> the arrays of a forward pass with the updated
  parameters.
\<close>

definition ex2_net :: ann where
  "ex2_net = \<lparr>n_layers = Some 1\<rparr>"

definition ex2_params :: "addr dict" where
  "ex2_params = [(''w1'', 6), (''b1'', 7)]"

definition ex2_heap :: heap where
  "ex2_heap = [Mat 2 [[1, 1]], Mat 2 [[1, 1], [0, 0]]]"

definition ex2_heap_init :: heap where
  "ex2_heap_init =
     ex2_heap @ [Mat 1 [[1]], Mat 1 [[1], [0]], Mat 1 [[1]], Mat 1 [[1], [0]],
                 Mat 1 [[0], [0]], Mat 1 [[0], [0]]]"

definition ex2_run :: run where
  "ex2_run = \<lparr>net = ex2_net, X_train = 4, Y_train = 5, X_validation = 2, Y_validation = 3,
              learning_rate = 1, batch_size = 1\<rparr>"

definition ex2_pass :: heap where
  \<comment> \<open>the batch slices, the forward pass on the batch and the one on the validation split\<close>
  "ex2_pass =
     [Mat 1 [[1]], Mat 1 [[1], [0]],
      Mat 1 [[0], [0]], Mat 1 [[0], [0]], Mat 1 [[1 / 2], [1 / 2]],
      Mat 1 [[0], [0]], Mat 1 [[0], [0]], Mat 1 [[1 / 2], [1 / 2]]]"

definition ex2_trainer0 :: trainer where
  "ex2_trainer0 = \<lparr>heap_of = ex2_heap_init, params = ex2_params, prev_val_acc = np_inf,
                   converged = False, training_step = 0, history = [],
                   accuracy_history = []\<rparr>"

definition ex2_heap_epoch0 :: heap where
  "ex2_heap_epoch0 =
     (ex2_heap_init @ ex2_pass @
       [Mat 1 [[0], [0]], Mat 1 [[1 / 2], [1 / 2]], Mat 1 [[- 1 / 2], [1 / 2]],
        Mat 1 [[- 1 / 2], [1 / 2]], Mat 1 [[0]]])
     [6 := Mat 1 [[1 / 2], [- 1 / 2]], 7 := Mat 1 [[1 / 2], [- 1 / 2]]]"

definition ex2_trainer1 :: trainer where
  "ex2_trainer1 = \<lparr>heap_of = ex2_heap_epoch0, params = ex2_params, prev_val_acc = Fin 1,
                   converged = False, training_step = 1, history = [Fin (ln 2)],
                   accuracy_history = [Fin 1]\<rparr>"

definition ex2_forward :: heap where
  "ex2_forward =
     [Mat 1 [[1], [- 1]], Mat 1 [[0], [- 2]],
      Mat 1 [[1 / (1 + exp (- 2))], [exp (- 2) / (1 + exp (- 2))]]]"

definition ex2_heap_batch :: heap where
  "ex2_heap_batch = ex2_heap_epoch0 @ [Mat 1 [[1]], Mat 1 [[1], [0]]]"

definition ex2_heap_batch_forward :: heap where
  "ex2_heap_batch_forward = ex2_heap_batch @ ex2_forward"

definition ex2_batch_caches :: "cache list" where
  "ex2_batch_caches =
     [\<lparr>cache_A = 21, cache_W = 6, cache_b = 7, cache_Z = Some 24, cache_Y = None\<rparr>]"

definition ex2_heap_epoch1 :: heap where
  "ex2_heap_epoch1 = ex2_heap_batch_forward @ ex2_forward"

definition ex2_heap_end :: heap where
  "ex2_heap_end = ex2_heap_epoch1 @ ex2_forward @ ex2_forward"

section \<open>A sample has been recorded\<close>

definition recorded :: "trainer \<Rightarrow> bool" where
  "recorded t = (accuracy_history t \<noteq> [] \<and> history t \<noteq> [])"

section \<open>Shapes and entries\<close>

lemma nrows_mk_mat: "nrows (mk_mat r c f) = r"
  by (simp add: nrows_def mk_mat_def)

lemma ncols_mk_mat: "ncols (mk_mat r c f) = c"
  by (simp add: mk_mat_def)

lemma entry_mk_mat: "i < r \<Longrightarrow> j < c \<Longrightarrow> entry (mk_mat r c f) i j = f i j"
  by (simp add: entry_def mk_mat_def mk_vec_def)

lemma wf_mk_mat: "wf_mat (mk_mat r c f)"
  by (simp add: wf_mat_def mk_mat_def mk_vec_def list_all_iff)

lemma mk_mat_cong:
  "(\<And>i j. i < r \<Longrightarrow> j < c \<Longrightarrow> f i j = g i j) \<Longrightarrow> mk_mat r c f = mk_mat r c g"
  by (simp add: mk_mat_def mk_vec_def)

lemma bidx_id: "i < d \<Longrightarrow> bidx d i = i"
  by (simp add: bidx_def)

lemma bdim_same: "bdim n n = Some n"
  by (simp add: bdim_def)

lemma bdim_one_right: "bdim n (Suc 0) = Some n"
  by (simp add: bdim_def)

lemma bdim_one_left: "bdim (Suc 0) n = Some n"
  by (auto simp add: bdim_def)

lemma entry_as_row: "entry (as_row v) 0 j = v ! j"
  by (simp add: entry_def as_row_def)

lemma nrows_as_row: "nrows (as_row v) = Suc 0"
  by (simp add: nrows_def as_row_def)

lemma ncols_as_row: "ncols (as_row v) = length v"
  by (simp add: as_row_def)

lemma length_mk_vec: "length (mk_vec n f) = n"
  by (simp add: mk_vec_def)

lemma nth_mk_vec: "i < n \<Longrightarrow> mk_vec n f ! i = f i"
  by (simp add: mk_vec_def)

lemma map_mat_mk_mat: "map_mat g (mk_mat r c f) = mk_mat r c (\<lambda>i j. g (f i j))"
  by (simp add: map_mat_def mk_mat_def mk_vec_def)

lemma sum_list_upt: "sum_list (map f [0..<n]) = sum f {..<n}"
  by (simp add: interv_sum_list_conv_sum_set_nat atLeast0LessThan)

lemma sub_row_vec:
  "length v = ncols z \<Longrightarrow>
   broadcast2 f z (as_row v) = Inr (mk_mat (nrows z) (ncols z) (\<lambda>i j. f (entry z i j) (v ! j)))"
proof -
  assume len: "length v = ncols z"
  have "mk_mat (nrows z) (ncols z)
          (\<lambda>i j. f (entry z (bidx (nrows z) i) (bidx (ncols z) j))
                  (entry (as_row v) (bidx (Suc 0) i) (bidx (length v) j))) =
        mk_mat (nrows z) (ncols z) (\<lambda>i j. f (entry z i j) (v ! j))"
    by (rule mk_mat_cong) (auto simp add: len entry_as_row bidx_def)
  then show ?thesis
    by (simp add: broadcast2_def nrows_as_row ncols_as_row bdim_same bdim_one_right len)
qed

lemma column_mk_mat: "j < c \<Longrightarrow> column (mk_mat r c f) j = mk_vec r (\<lambda>i. f i j)"
  by (simp add: column_def nrows_mk_mat mk_vec_def entry_mk_mat)

lemma sum_list_map_divide: "sum_list (map (\<lambda>x. f x / (c::real)) xs) = sum_list (map f xs) / c"
  by (induction xs) (simp_all add: add_divide_distrib)

subsection \<open>The exponential\<close>

lemma exp_nat_le: "exp (real n) \<le> 3 ^ n"
proof -
  have "exp (real n) = exp 1 ^ n"
    using exp_of_nat_mult [of n "1::real"] by simp
  also have "\<dots> \<le> 3 ^ n"
    by (intro power_mono exp_le) simp
  finally show ?thesis .
qed

lemma exp_nat_ge: "(5 / 2) ^ n \<le> exp (real n)"
proof -
  have "(5 / 2 :: real) \<le> exp 1"
    using exp_lower_Taylor_quadratic [of "1::real"] by simp
  then have "(5 / 2 :: real) ^ n \<le> exp 1 ^ n"
    by (intro power_mono) simp_all
  also have "\<dots> = exp (real n)"
    using exp_of_nat_mult [of n "1::real"] by simp
  finally show ?thesis .
qed

lemma np_exp_eq [simp]: "- 100 \<le> x \<Longrightarrow> np_exp x = exp x"
proof -
  assume x: "- 100 \<le> x"
  have "exp (100::real) \<le> 3 ^ 100"
    using exp_nat_le [of 100] by simp
  also have "\<dots> < 2 ^ 1075" by simp
  finally have "1 / 2 ^ 1075 < 1 / exp (100::real)"
    by (intro divide_strict_left_mono) simp_all
  also have "\<dots> = exp (- 100)" by (simp add: exp_minus inverse_eq_divide)
  also have "\<dots> \<le> exp x" using x by simp
  finally show ?thesis by (simp add: np_exp_def)
qed

lemma np_exp_underflow: "x \<le> - 1000 \<Longrightarrow> np_exp x = 0"
proof -
  assume x: "x \<le> - 1000"
  have "(2::real) ^ 1075 \<le> (2 ^ 5) ^ 250" by (simp add: power_mult [symmetric])
  also have "\<dots> \<le> ((5 / 2) ^ 4) ^ 250"
    by (intro power_mono) (simp_all add: power_divide)
  also have "\<dots> = (5 / 2) ^ 1000" by (simp add: power_mult [symmetric])
  also have "\<dots> \<le> exp (1000::real)" using exp_nat_ge [of 1000] by simp
  finally have "1 / exp (1000::real) \<le> 1 / 2 ^ 1075"
    by (intro divide_left_mono) simp_all
  moreover have "exp x \<le> exp (- 1000)" using x by simp
  moreover have "exp (- 1000 :: real) = 1 / exp 1000"
    by (simp add: exp_minus inverse_eq_divide)
  ultimately have "exp x \<le> 1 / 2 ^ 1075" by linarith
  then show ?thesis by (simp only: np_exp_def if_True)
qed

lemma np_exp_nonneg: "0 \<le> np_exp x"
  by (simp add: np_exp_def)

lemma np_exp_le_one: "x \<le> 0 \<Longrightarrow> np_exp x \<le> 1"
  by (simp add: np_exp_def)

lemma sum_list_np_exp_nonneg: "0 \<le> sum_list (map (\<lambda>x. np_exp (g x)) xs)"
  by (rule sum_list_nonneg) (auto simp add: np_exp_nonneg)

lemma elem_le_sum_list_np_exp:
  "x \<in> set xs \<Longrightarrow> np_exp (g x) \<le> sum_list (map (\<lambda>x. np_exp (g x)) xs)"
  by (induction xs) (auto simp add: sum_list_np_exp_nonneg np_exp_nonneg add_increasing
      add_increasing2)

lemma upt_unfold: "[i..<j] = (if i < j then i # [Suc i..<j] else [])"
  by (simp add: upt_rec)

lemmas np_eval = thenE_def np_max_axis0_def broadcast2_def bdim_def bidx_def
  mk_mat_def mk_vec_def column_def entry_def nrows_def as_row_def map_mat_def np_sum_axis0_def
  alloc_def Let_def wf_mat_def

section \<open>Softmax\<close>

text \<open>
  Claim C2, as the specification states it, fails: an entry of the activation can be
  exactly 0, outside \<open>(0, 1]\<close>.  On the one column \<open>(0, - 1000)\<close> the exponential of the
  second shifted entry underflows and the activation is \<open>(1, 0)\<close>.
\<close>

theorem softmax_entry_underflows:
  "wf_mat ([Mat 1 [[0], [- 1000]]] ! 0) \<and> 0 < nrows ([Mat 1 [[0], [- 1000]]] ! 0) \<and>
   softmax [Mat 1 [[0], [- 1000]]] 0 =
     Inr ([Mat 1 [[0], [- 1000]], Mat 1 [[0], [- 1000]], Mat 1 [[1], [0]]], 2, 1) \<and>
   entry (Mat 1 [[1], [0]]) 1 0 = 0 \<and> \<not> 0 < entry (Mat 1 [[1], [0]]) 1 0"
proof -
  have u: "np_exp (- 1000) = 0" by (rule np_exp_underflow) simp
  show ?thesis
    by (simp add: softmax_def np_eval upt_unfold u)
qed

text \<open>
  Claim C2, amended.  For an input array with at least one row (numpy's \<^verbatim>\<open>max\<close> raises
  on an empty axis), \<open>softmax\<close> returns an activation of the same shape whose columns
  each sum to 1 and whose entries lie in \<open>[0, 1]\<close>: an entry is positive when its input
  is no more than 100 below the maximum of its column, and it is 0 when its input is
  1000 or more below that maximum.  The second array \<open>softmax\<close> returns, the activation
  cache, is the input minus its column maxima.  Nothing already on the heap changes.
\<close>

theorem softmax_normalises:
  assumes "Z < length h" and "wf_mat (h ! Z)" and "0 < nrows (h ! Z)"
  shows "\<exists>h' a z1. softmax h Z = Inr (h', a, z1) \<and> prefix h h' \<and>
           a < length h' \<and> z1 < length h' \<and>
           nrows (h' ! a) = nrows (h ! Z) \<and> ncols (h' ! a) = ncols (h ! Z) \<and>
           wf_mat (h' ! a) \<and>
           (\<forall>j < ncols (h ! Z). sum_list (column (h' ! a) j) = 1) \<and>
           (\<forall>i < nrows (h ! Z). \<forall>j < ncols (h ! Z).
               0 \<le> entry (h' ! a) i j \<and> entry (h' ! a) i j \<le> 1 \<and>
               (- 100 \<le> entry (h ! Z) i j - Max (set (column (h ! Z) j)) \<longrightarrow>
                  0 < entry (h' ! a) i j) \<and>
               (entry (h ! Z) i j - Max (set (column (h ! Z) j)) \<le> - 1000 \<longrightarrow>
                  entry (h' ! a) i j = 0)) \<and>
           h' ! z1 = mk_mat (nrows (h ! Z)) (ncols (h ! Z))
                       (\<lambda>i j. entry (h ! Z) i j - Max (set (column (h ! Z) j)))"
proof -
  define z where "z = h ! Z"
  define r where "r = nrows z"
  define c where "c = ncols z"
  define M where "M = (\<lambda>j. Max (set (column z j)))"
  define e where "e = (\<lambda>i j. np_exp (entry z i j - M j))"
  define S where "S = (\<lambda>j. sum_list (map (\<lambda>i. e i j) [0..<r]))"
  define Z1 where "Z1 = mk_mat r c (\<lambda>i j. entry z i j - M j)"
  define A where "A = mk_mat r c (\<lambda>i j. e i j / S j)"
  have rpos: "0 < r" using assms by (simp add: r_def z_def)
  have mx: "np_max_axis0 z = Inr (mk_vec c M)"
    using rpos by (simp add: np_max_axis0_def r_def c_def M_def)
  have sub: "broadcast2 (-) z (as_row (mk_vec c M)) = Inr Z1"
    unfolding Z1_def r_def c_def
    by (subst sub_row_vec) (auto simp add: length_mk_vec c_def nth_mk_vec intro!: mk_mat_cong)
  have ez: "map_mat np_exp Z1 = mk_mat r c e"
    by (simp add: Z1_def map_mat_mk_mat e_def)
  have sums: "np_sum_axis0 (mk_mat r c e) = mk_vec c S"
    by (simp add: np_sum_axis0_def ncols_mk_mat mk_vec_def column_mk_mat S_def)
  have dv: "broadcast2 (/) (mk_mat r c e) (as_row (mk_vec c S)) = Inr A"
    unfolding A_def
    by (subst sub_row_vec)
      (auto simp add: length_mk_vec ncols_mk_mat nrows_mk_mat nth_mk_vec entry_mk_mat
        intro!: mk_mat_cong)
  have run: "softmax h Z = Inr (h @ [Z1, A], Suc (length h), length h)"
    using mx sub dv
    by (simp add: softmax_def thenE_def z_def [symmetric] ez sums alloc_def Let_def)
  have le_max: "entry z i j \<le> M j" if "i < r" for i j
  proof -
    have "entry z i j \<in> set (column z j)"
      using that by (simp add: column_def mk_vec_def r_def)
    then show ?thesis unfolding M_def by (intro Max_ge) simp_all
  qed
  have le_sum: "e i j \<le> S j" if "i < r" for i j
    unfolding S_def e_def using that
    by (intro elem_le_sum_list_np_exp [where g = "\<lambda>i. entry z i j - M j"]) simp
  have Spos: "0 < S j" for j
  proof -
    have "column z j \<noteq> []"
      using rpos by (simp add: column_def mk_vec_def r_def)
    then have "M j \<in> set (column z j)"
      unfolding M_def by (intro Max_in) simp_all
    then obtain i where i: "i < r" "entry z i j = M j"
      by (auto simp add: column_def mk_vec_def r_def)
    then have "e i j = 1" by (simp add: e_def)
    with le_sum [OF i(1), of j] show ?thesis by simp
  qed
  have col: "sum_list (column A j) = 1" if "j < c" for j
  proof -
    have "column A j = map (\<lambda>i. e i j / S j) [0..<r]"
      using that by (simp add: A_def column_mk_mat mk_vec_def)
    then have "sum_list (column A j) = S j / S j"
      by (simp add: sum_list_map_divide S_def)
    then show ?thesis using Spos [of j] by simp
  qed
  have ent: "0 \<le> entry A i j \<and> entry A i j \<le> 1 \<and>
             (- 100 \<le> entry z i j - M j \<longrightarrow> 0 < entry A i j) \<and>
             (entry z i j - M j \<le> - 1000 \<longrightarrow> entry A i j = 0)"
    if "i < r" "j < c" for i j
  proof -
    have a: "entry A i j = e i j / S j"
      using that by (simp add: A_def entry_mk_mat)
    have "0 \<le> e i j" by (simp add: e_def np_exp_nonneg)
    moreover have "0 < e i j" if "- 100 \<le> entry z i j - M j"
      using that by (simp add: e_def)
    moreover have "e i j = 0" if "entry z i j - M j \<le> - 1000"
      using that by (simp add: e_def np_exp_underflow)
    ultimately show ?thesis
      using le_sum [OF that(1), of j] Spos [of j] by (simp add: a)
  qed
  show ?thesis
    unfolding run
    using col ent
    by (simp add: nth_append z_def [symmetric] r_def [symmetric] c_def [symmetric]
        A_def [symmetric] Z1_def [symmetric] M_def [symmetric])
      (simp add: A_def Z1_def M_def nrows_mk_mat ncols_mk_mat wf_mk_mat)
qed

theorem softmax_normalises_witness:
  "0 < length [Mat 2 [[2, 1], [2, 3]]] \<and> wf_mat ([Mat 2 [[2, 1], [2, 3]]] ! 0) \<and>
   0 < nrows ([Mat 2 [[2, 1], [2, 3]]] ! 0) \<and>
   (\<exists>h' a z1. softmax [Mat 2 [[2, 1], [2, 3]]] 0 = Inr (h', a, z1) \<and>
      sum_list (column (h' ! a) 0) = 1 \<and> sum_list (column (h' ! a) 1) = 1 \<and>
      0 < entry (h' ! a) 0 1 \<and> entry (h' ! a) 0 1 \<le> 1 \<and>
      h' ! z1 = Mat 2 [[0, - 2], [0, 0]])"
proof -
  define h where "h = [Mat 2 [[2, 1], [2, 3]]]"
  have len: "0 < length h" by (simp add: h_def)
  have hyp: "wf_mat (h ! 0)" "0 < nrows (h ! 0)"
    by (simp_all add: wf_mat_def nrows_def h_def)
  have shape: "nrows (h ! 0) = 2" "ncols (h ! 0) = 2"
    by (simp_all add: nrows_def h_def)
  have near: "- 100 \<le> entry (h ! 0) 0 1 - Max (set (column (h ! 0) 1))"
    by (simp add: h_def np_eval upt_unfold)
  from softmax_normalises [OF len hyp]
  obtain h' a z1 where r: "softmax h 0 = Inr (h', a, z1)"
    and s: "\<forall>j<ncols (h ! 0). sum_list (column (h' ! a) j) = 1"
    and e: "\<forall>i<nrows (h ! 0). \<forall>j<ncols (h ! 0).
              0 \<le> entry (h' ! a) i j \<and> entry (h' ! a) i j \<le> 1 \<and>
              (- 100 \<le> entry (h ! 0) i j - Max (set (column (h ! 0) j)) \<longrightarrow>
                 0 < entry (h' ! a) i j) \<and>
              (entry (h ! 0) i j - Max (set (column (h ! 0) j)) \<le> - 1000 \<longrightarrow>
                 entry (h' ! a) i j = 0)"
    and z: "h' ! z1 = mk_mat (nrows (h ! 0)) (ncols (h ! 0))
              (\<lambda>i j. entry (h ! 0) i j - Max (set (column (h ! 0) j)))"
    by blast
  have "h' ! z1 = Mat 2 [[0, - 2], [0, 0]]"
    unfolding z by (simp add: h_def np_eval upt_unfold)
  moreover have "sum_list (column (h' ! a) 0) = 1" "sum_list (column (h' ! a) 1) = 1"
    using s by (simp_all add: shape)
  moreover have "0 < entry (h' ! a) 0 1 \<and> entry (h' ! a) 0 1 \<le> 1"
    using e near by (simp add: shape)
  ultimately show ?thesis
    using r len hyp unfolding h_def by blast
qed

text \<open>The same input, evaluated: the activation and the shifted input the code stores.\<close>

lemma softmax_example:
  "softmax [Mat 2 [[2, 1], [2, 3]]] 0 =
     Inr ([Mat 2 [[2, 1], [2, 3]], Mat 2 [[0, - 2], [0, 0]],
           Mat 2 [[1 / 2, exp (- 2) / (exp (- 2) + 1)], [1 / 2, 1 / (exp (- 2) + 1)]]], 2, 1)"
  by (simp add: softmax_def np_eval upt_unfold)


section \<open>Cost\<close>

lemma row_vec_broadcast:
  assumes len: "length v = ncols z"
  shows "broadcast2 f (as_row v) z =
           Inr (mk_mat (nrows z) (ncols z) (\<lambda>i j. f (v ! j) (entry z i j)))"
proof -
  have "mk_mat (nrows z) (ncols z)
          (\<lambda>i j. f (entry (as_row v) (bidx (Suc 0) i) (bidx (length v) j))
                  (entry z (bidx (nrows z) i) (bidx (ncols z) j))) =
        mk_mat (nrows z) (ncols z) (\<lambda>i j. f (v ! j) (entry z i j))"
    by (rule mk_mat_cong) (auto simp add: len entry_as_row bidx_def)
  then show ?thesis
    by (simp add: broadcast2_def nrows_as_row ncols_as_row bdim_same bdim_one_left len)
qed

lemma one_hot_position:
  "one_hot xs \<Longrightarrow>
     length (takeWhile (\<lambda>x. x \<noteq> 1) xs) < length xs \<and>
     xs ! length (takeWhile (\<lambda>x. x \<noteq> 1) xs) = 1 \<and>
     (\<forall>i < length xs. i \<noteq> length (takeWhile (\<lambda>x. x \<noteq> 1) xs) \<longrightarrow> xs ! i = 0)"
proof (induction xs)
  case Nil
  then show ?case by (simp add: one_hot_def)
next
  case (Cons x xs)
  show ?case
  proof (cases "x = 1")
    case True
    with Cons.prems have none: "filter (\<lambda>x. x = 1) xs = []" and bin: "list_all (\<lambda>x. x = 0 \<or> x = 1) xs"
      by (simp_all add: one_hot_def)
    have "xs ! i = 0" if "i < length xs" for i
    proof -
      have "xs ! i \<in> set xs" using that by simp
      with none bin show ?thesis
        by (auto simp add: filter_empty_conv list_all_iff)
    qed
    with True show ?thesis
      by (auto simp add: nth_Cons split: nat.splits)
  next
    case False
    with Cons.prems have "one_hot xs" and x0: "x = 0"
      by (auto simp add: one_hot_def)
    from Cons.IH [OF this(1)] False x0 show ?thesis
      by (auto simp add: nth_Cons split: nat.splits)
  qed
qed

lemma sum_list_concat_map:
  "sum_list (concat xss) = sum_list (map sum_list (xss :: real list list))"
  by (induction xss) simp_all

lemma length_filter_sum: "length (filter P xs) = sum_list (map (\<lambda>x. if P x then 1 else 0) xs)"
  by (induction xs) simp_all

lemma sum_list_filter_if:
  "sum_list (map f (filter P xs)) = sum_list (map (\<lambda>x. if P x then f x else (0::real)) xs)"
  by (induction xs) simp_all

lemma np_sum_all_mk_mat:
  "np_sum_all (mk_mat r c f) = (\<Sum>i<r. \<Sum>j<c. f i j)"
  by (simp add: np_sum_all_def mk_mat_def mk_vec_def comp_def sum_list_upt)

lemma length_mask_select:
  "length (mask_select al y) = (\<Sum>j<ncols al. \<Sum>i<nrows al. if 0 < entry y i j then 1 else 0)"
proof -
  have "length (mask_select al y) = (\<Sum>i<nrows al. \<Sum>j<ncols al. if 0 < entry y i j then 1 else 0)"
    by (simp add: mask_select_def length_concat comp_def length_filter_sum sum_list_upt)
  then show ?thesis by (simp add: sum.swap [of _ "{..<ncols al}"])
qed

lemma sum_ln_mask_select:
  "sum_list (map ln (mask_select al y)) =
     (\<Sum>j<ncols al. \<Sum>i<nrows al. if 0 < entry y i j then ln (entry al i j) else 0)"
proof -
  have "sum_list (map ln (mask_select al y)) =
          (\<Sum>i<nrows al. \<Sum>j<ncols al. if 0 < entry y i j then ln (entry al i j) else 0)"
    by (simp add: mask_select_def map_concat sum_list_concat_map comp_def sum_list_filter_if
        sum_list_upt)
  then show ?thesis by (simp add: sum.swap [of _ "{..<ncols al}"])
qed

lemma set_mask_select:
  "x \<in> set (mask_select al y) \<Longrightarrow>
     \<exists>i<nrows al. \<exists>j<ncols al. 0 < entry y i j \<and> x = entry al i j"
  by (auto simp add: mask_select_def)

text \<open>
  Claim C1.  For a batch of at least one column, a prediction array and a label array
  of the same shape, every label column one-hot and the prediction positive at each
  true class, \<open>compute_cost\<close> returns the categorical cross-entropy: minus the mean over
  the columns of the logarithm of the prediction at the column's true class.  The code
  multiplies the logarithms of the selected entries, taken in row-major order, with the
  label array by broadcasting; the result is the same sum because every label column
  sums to 1.
\<close>

theorem compute_cost_cross_entropy:
  assumes valid: "AL < length h" "Y < length h"
    and wf: "wf_mat (h ! AL)" "wf_mat (h ! Y)"
    and shape: "nrows (h ! Y) = nrows (h ! AL)" "ncols (h ! Y) = ncols (h ! AL)"
    and batch: "0 < ncols (h ! AL)"
    and hot: "\<forall>j<ncols (h ! Y). one_hot (column (h ! Y) j)"
    and pos: "\<forall>j<ncols (h ! Y). 0 < entry (h ! AL) (true_class (h ! Y) j) j"
  shows "compute_cost h AL Y = Inr (Fin (cross_entropy (h ! AL) (h ! Y)))"
proof -
  define al where "al = h ! AL"
  define y where "y = h ! Y"
  define r where "r = nrows al"
  define c where "c = ncols al"
  define t where "t = true_class y"
  have ry: "nrows y = r" and cy: "ncols y = c"
    using shape by (simp_all add: al_def y_def r_def c_def)
  have col: "t j < r \<and> entry y (t j) j = 1 \<and> (\<forall>i<r. i \<noteq> t j \<longrightarrow> entry y i j = 0)"
    if "j < c" for j
  proof -
    have "one_hot (column y j)" using hot that by (simp add: y_def [symmetric] cy)
    from one_hot_position [OF this]
    have "t j < r" and "column y j ! t j = 1"
      and "\<forall>i<r. i \<noteq> t j \<longrightarrow> column y j ! i = 0"
      by (simp_all add: t_def true_class_def column_def length_mk_vec ry)
    then show ?thesis
      by (simp add: column_def nth_mk_vec ry)
  qed
  have ind: "(\<Sum>i<r. if 0 < entry y i j then g i else 0) = g (t j)" if "j < c" for j and g :: "nat \<Rightarrow> real"
  proof -
    have "(\<Sum>i<r. if 0 < entry y i j then g i else 0) = (\<Sum>i<r. if i = t j then g i else 0)"
      using col [OF that] by (intro sum.cong) auto
    also have "\<dots> = g (t j)" using col [OF that] by simp
    finally show ?thesis .
  qed
  have indn: "(\<Sum>i<r. if 0 < entry y i j then 1 else 0) = (1::nat)" if "j < c" for j
  proof -
    have "(\<Sum>i<r. if 0 < entry y i j then 1 else 0) = (\<Sum>i<r. if i = t j then 1 else (0::nat))"
      using col [OF that] by (intro sum.cong) auto
    also have "\<dots> = 1" using col [OF that] by simp
    finally show ?thesis .
  qed
  have colsum: "(\<Sum>i<r. entry y i j) = 1" if "j < c" for j
  proof -
    have "(\<Sum>i<r. entry y i j) = (\<Sum>i<r. if i = t j then 1 else 0)"
      using col [OF that] by (intro sum.cong) auto
    also have "\<dots> = 1" using col [OF that] by simp
    finally show ?thesis .
  qed
  define sel where "sel = mask_select al y"
  have len: "length sel = c"
    unfolding sel_def length_mask_select r_def [symmetric] c_def [symmetric]
    using indn by simp
  have lnsum: "sum_list (map ln sel) = (\<Sum>j<c. ln (entry al (t j) j))"
    unfolding sel_def sum_ln_mask_select r_def [symmetric] c_def [symmetric]
    using ind by simp
  have selpos: "list_all (\<lambda>x. 0 < x) sel"
  proof -
    have "0 < x" if "x \<in> set sel" for x
    proof -
      from set_mask_select [OF that [unfolded sel_def]]
      obtain i j where ij: "i < r" "j < c" "0 < entry y i j" "x = entry al i j"
        by (auto simp add: r_def c_def)
      with col [of j] have "i = t j" by force
      with ij pos show ?thesis by (simp add: al_def y_def t_def cy [unfolded y_def] )
    qed
    then show ?thesis by (simp add: list_all_iff)
  qed
  have bc: "broadcast2 (*) (as_row (map ln sel)) y =
              Inr (mk_mat r c (\<lambda>i j. map ln sel ! j * entry y i j))"
    using row_vec_broadcast [of "map ln sel" y "(*)"] by (simp add: len ry cy)
  have total: "np_sum_all (mk_mat r c (\<lambda>i j. map ln sel ! j * entry y i j)) = sum_list (map ln sel)"
  proof -
    have "np_sum_all (mk_mat r c (\<lambda>i j. map ln sel ! j * entry y i j)) =
            (\<Sum>j<c. \<Sum>i<r. map ln sel ! j * entry y i j)"
      by (simp add: np_sum_all_mk_mat sum.swap [of _ "{..<c}"])
    also have "\<dots> = (\<Sum>j<c. map ln sel ! j * (\<Sum>i<r. entry y i j))"
      by (simp add: sum_distrib_left)
    also have "\<dots> = (\<Sum>j<c. map ln sel ! j)"
      using colsum by simp
    also have "\<dots> = sum_list (map ln sel)"
      using len by (simp add: sum_list_sum_nth atLeast0LessThan)
    finally show ?thesis .
  qed
  have ce: "cross_entropy al y = - (\<Sum>j<c. ln (entry al (t j) j)) / real c"
    by (simp add: cross_entropy_def sum_list_upt cy t_def)
  have cpos: "c \<noteq> 0" using batch by (simp add: c_def al_def)
  show ?thesis
    using cpos selpos
    by (simp add: compute_cost_def Let_def al_def [symmetric] y_def [symmetric] ry cy
        r_def [symmetric] c_def [symmetric] sel_def [symmetric] bc thenE_def total lnsum ce)
qed

theorem compute_cost_cross_entropy_witness:
  "wf_mat ([Mat 2 [[1 / 2, 1 / 4], [1 / 2, 3 / 4]], Mat 2 [[0, 1], [1, 0]]] ! 0) \<and>
   one_hot (column ([Mat 2 [[1 / 2, 1 / 4], [1 / 2, 3 / 4]], Mat 2 [[0, 1], [1, 0]]] ! 1) 0) \<and>
   one_hot (column ([Mat 2 [[1 / 2, 1 / 4], [1 / 2, 3 / 4]], Mat 2 [[0, 1], [1, 0]]] ! 1) 1) \<and>
   compute_cost [Mat 2 [[1 / 2, 1 / 4], [1 / 2, 3 / 4]], Mat 2 [[0, 1], [1, 0]]] 0 1 =
     Inr (Fin (- (ln (1 / 2) + ln (1 / 4)) / 2))"
proof -
  define h where "h = [Mat 2 [[1 / 2, 1 / 4], [1 / 2, 3 / 4]], Mat 2 [[0, 1], [1, 0]]]"
  have valid: "0 < length h" "1 < length h" by (simp_all add: h_def)
  have wf: "wf_mat (h ! 0)" "wf_mat (h ! 1)" by (simp_all add: h_def wf_mat_def)
  have shape: "nrows (h ! 1) = nrows (h ! 0)" "ncols (h ! 1) = ncols (h ! 0)"
    "0 < ncols (h ! 0)"
    by (simp_all add: h_def nrows_def)
  have hot0: "one_hot (column (h ! 1) 0)" and hot1: "one_hot (column (h ! 1) 1)"
    by (simp_all add: h_def one_hot_def np_eval upt_unfold)
  have hot: "\<forall>j<ncols (h ! 1). one_hot (column (h ! 1) j)"
    using hot0 hot1 by (simp add: h_def less_Suc_eq numeral_2_eq_2)
  have pos: "\<forall>j<ncols (h ! 1). 0 < entry (h ! 0) (true_class (h ! 1) j) j"
    by (simp add: h_def true_class_def np_eval upt_unfold less_Suc_eq numeral_2_eq_2)
  have "cross_entropy (h ! 0) (h ! 1) = - (ln (1 / 2) + ln (1 / 4)) / 2"
    by (simp add: h_def cross_entropy_def true_class_def np_eval upt_unfold)
  with compute_cost_cross_entropy [OF valid wf shape hot pos] wf(1) hot0 hot1
  show ?thesis unfolding h_def by simp
qed


section \<open>Softmax backward\<close>

lemma nrows_shift_columns: "nrows (shift_columns z) = nrows z"
  by (simp add: shift_columns_def nrows_mk_mat)

lemma ncols_shift_columns: "ncols (shift_columns z) = ncols z"
  by (simp add: shift_columns_def ncols_mk_mat)

lemma np_sum_axis0_mk_mat:
  "np_sum_axis0 (mk_mat r c f) = mk_vec c (\<lambda>j. sum_list (mk_vec r (\<lambda>i. f i j)))"
proof -
  have "mk_vec c (\<lambda>j. sum_list (column (mk_mat r c f) j)) =
        mk_vec c (\<lambda>j. sum_list (mk_vec r (\<lambda>i. f i j)))"
    unfolding mk_vec_def [of c] by (rule map_cong) (simp_all add: column_mk_mat)
  then show ?thesis by (simp add: np_sum_axis0_def ncols_mk_mat)
qed

lemma softmax_run:
  assumes "0 < nrows (h ! Z)"
  shows "softmax h Z =
           Inr (h @ [shift_columns (h ! Z), softmax_value (h ! Z)], Suc (length h), length h)"
proof -
  define z where "z = h ! Z"
  define r where "r = nrows z"
  define c where "c = ncols z"
  define M where "M = (\<lambda>j. Max (set (column z j)))"
  have mx: "np_max_axis0 z = Inr (mk_vec c M)"
    using assms by (simp add: np_max_axis0_def z_def c_def M_def)
  have sub: "broadcast2 (-) z (as_row (mk_vec c M)) = Inr (shift_columns z)"
    unfolding shift_columns_def c_def
    by (subst sub_row_vec) (auto simp add: length_mk_vec nth_mk_vec M_def intro!: mk_mat_cong)
  have ez: "map_mat np_exp (shift_columns z) = mk_mat r c (\<lambda>i j. np_exp (entry (shift_columns z) i j))"
    by (auto simp add: shift_columns_def map_mat_mk_mat r_def c_def entry_mk_mat intro!: mk_mat_cong)
  have "column (shift_columns z) j = mk_vec r (\<lambda>i. entry (shift_columns z) i j)" for j
    by (simp add: column_def nrows_shift_columns r_def)
  then have sums: "np_sum_axis0 (mk_mat r c (\<lambda>i j. np_exp (entry (shift_columns z) i j))) =
                mk_vec c (\<lambda>j. sum_list (map np_exp (column (shift_columns z) j)))"
    by (simp add: np_sum_axis0_mk_mat) (simp add: mk_vec_def comp_def)
  have dv: "broadcast2 (/) (mk_mat r c (\<lambda>i j. np_exp (entry (shift_columns z) i j)))
              (as_row (mk_vec c (\<lambda>j. sum_list (map np_exp (column (shift_columns z) j))))) =
            Inr (softmax_value z)"
    unfolding softmax_value_def r_def [symmetric] c_def [symmetric]
    by (subst sub_row_vec)
      (auto simp add: length_mk_vec ncols_mk_mat nrows_mk_mat nth_mk_vec entry_mk_mat
        intro!: mk_mat_cong)
  show ?thesis
    using mx sub dv
    by (simp add: softmax_def thenE_def z_def [symmetric] ez sums alloc_def Let_def)
qed

lemma Max_shift:
  assumes "xs \<noteq> []"
  shows "Max ((\<lambda>x. x - (m::real)) ` set xs) = Max (set xs) - m"
proof -
  have "mono (\<lambda>x. x - m)" by (simp add: mono_def)
  from mono_Max_commute [OF this, of "set xs"] assms show ?thesis by simp
qed

lemma column_shift_columns:
  "j < ncols z \<Longrightarrow>
     column (shift_columns z) j = map (\<lambda>x. x - Max (set (column z j))) (column z j)"
proof -
  assume "j < ncols z"
  then have "column (shift_columns z) j =
               mk_vec (nrows z) (\<lambda>i. entry z i j - Max (set (column z j)))"
    unfolding shift_columns_def by (rule column_mk_mat)
  also have "\<dots> = map (\<lambda>x. x - Max (set (column z j))) (mk_vec (nrows z) (\<lambda>i. entry z i j))"
    by (simp add: mk_vec_def)
  finally show ?thesis by (simp add: column_def)
qed

lemma column_nonempty: "0 < nrows z \<Longrightarrow> column z j \<noteq> []"
  by (simp add: column_def mk_vec_def)

lemma shift_columns_idem:
  assumes "0 < nrows z"
  shows "shift_columns (shift_columns z) = shift_columns z"
proof -
  have "Max (set (column (shift_columns z) j)) = 0" if "j < ncols z" for j
    using that assms by (simp add: column_shift_columns Max_shift column_nonempty)
  then have "mk_mat (nrows z) (ncols z)
          (\<lambda>i j. entry (shift_columns z) i j - Max (set (column (shift_columns z) j))) =
        mk_mat (nrows z) (ncols z) (\<lambda>i j. entry (shift_columns z) i j)"
    by (intro mk_mat_cong) simp
  also have "\<dots> = shift_columns z"
    unfolding shift_columns_def [of z] by (intro mk_mat_cong) (simp add: entry_mk_mat)
  finally show ?thesis
    by (simp add: shift_columns_def [of "shift_columns z"] nrows_shift_columns
        ncols_shift_columns)
qed

lemma softmax_value_shift:
  assumes "0 < nrows z"
  shows "softmax_value (shift_columns z) = softmax_value z"
  by (simp add: softmax_value_def shift_columns_idem [OF assms] nrows_shift_columns
      ncols_shift_columns)

text \<open>
  Claim C4.  Let the forward pass have run \<open>softmax\<close> on the pre-activation \<open>Z\<close> and
  stored the shifted array it returned in the cache, and let the true labels \<open>Y\<close> be
  attached to the cache.  Then \<open>softmax_backward\<close> returns the array
  \<open>softmax(Z) - Y\<close>: recomputing the softmax from the shifted array allocates again the
  same shifted array and the same activation that the forward pass produced from \<open>Z\<close>.
  The upstream gradient \<open>dA\<close> is not read.
\<close>

theorem softmax_backward_closed_form:
  assumes run: "softmax h Z = Inr (h1, A, Zs)"
    and rows: "0 < nrows (h ! Z)"
    and later: "prefix h1 h2"
    and cache: "cache_Z c = Some Zs" "cache_Y c = Some Y"
    and valid: "Y < length h2"
  shows "softmax_backward h2 dA c =
           thenE (broadcast2 (-) (softmax_value (h ! Z)) (h2 ! Y))
             (\<lambda>d. Inr (h2 @ [h1 ! Zs, h1 ! A, d], length h2 + 2)) \<and>
         h1 ! A = softmax_value (h ! Z) \<and> h1 ! Zs = shift_columns (h ! Z)"
proof -
  from run have h1: "h1 = h @ [shift_columns (h ! Z), softmax_value (h ! Z)]"
    and A: "A = Suc (length h)" and Zs: "Zs = length h"
    by (simp_all add: softmax_run [OF rows])
  have a: "h1 ! A = softmax_value (h ! Z)" and z: "h1 ! Zs = shift_columns (h ! Z)"
    by (simp_all add: h1 A Zs nth_append)
  from later obtain t where h2: "h2 = h1 @ t" by (auto simp add: prefix_def)
  have zs2: "h2 ! Zs = shift_columns (h ! Z)"
    by (simp add: h2 h1 Zs nth_append)
  have rows2: "0 < nrows (h2 ! Zs)"
    using rows by (simp add: zs2 nrows_shift_columns)
  have "softmax_backward h2 dA c =
           thenE (broadcast2 (-) (softmax_value (h ! Z)) (h2 ! Y))
             (\<lambda>d. Inr (h2 @ [h1 ! Zs, h1 ! A, d], length h2 + 2))"
    using valid
    by (simp add: softmax_backward_def cache cache_get_def thenE_def softmax_run [OF rows2]
        zs2 shift_columns_idem [OF rows] softmax_value_shift [OF rows] a z nth_append alloc_def
        split: sum.splits)
  with a z show ?thesis by simp
qed

theorem softmax_backward_closed_form_witness:
  "softmax [Mat 2 [[2, 1], [2, 3]]] 0 =
     Inr ([Mat 2 [[2, 1], [2, 3]], Mat 2 [[0, - 2], [0, 0]],
           Mat 2 [[1 / 2, exp (- 2) / (exp (- 2) + 1)], [1 / 2, 1 / (exp (- 2) + 1)]]], 2, 1) \<and>
   softmax_backward
     [Mat 2 [[2, 1], [2, 3]], Mat 2 [[0, - 2], [0, 0]],
      Mat 2 [[1 / 2, exp (- 2) / (exp (- 2) + 1)], [1 / 2, 1 / (exp (- 2) + 1)]],
      Mat 2 [[1, 0], [0, 1]]]
     0 \<lparr>cache_A = 0, cache_W = 0, cache_b = 0, cache_Z = Some 1, cache_Y = Some 3\<rparr> =
     Inr ([Mat 2 [[2, 1], [2, 3]], Mat 2 [[0, - 2], [0, 0]],
           Mat 2 [[1 / 2, exp (- 2) / (exp (- 2) + 1)], [1 / 2, 1 / (exp (- 2) + 1)]],
           Mat 2 [[1, 0], [0, 1]],
           Mat 2 [[0, - 2], [0, 0]],
           Mat 2 [[1 / 2, exp (- 2) / (exp (- 2) + 1)], [1 / 2, 1 / (exp (- 2) + 1)]],
           Mat 2 [[1 / 2 - 1, exp (- 2) / (exp (- 2) + 1)], [1 / 2, 1 / (exp (- 2) + 1) - 1]]],
          6)"
proof -
  define h where "h = [Mat 2 [[2, 1], [2, 3]]]"
  define h1 where "h1 = [Mat 2 [[2, 1], [2, 3]], Mat 2 [[0, - 2], [0, 0]],
           Mat 2 [[1 / 2, exp (- 2) / (exp (- 2) + 1)], [1 / 2, 1 / (exp (- 2) + 1)]]]"
  define c where "c = \<lparr>cache_A = 0, cache_W = 0, cache_b = 0, cache_Z = Some 1, cache_Y = Some 3\<rparr>"
  have run: "softmax h 0 = Inr (h1, 2, 1)"
    unfolding h_def h1_def by (rule softmax_example)
  have rows: "0 < nrows (h ! 0)" by (simp add: h_def nrows_def)
  have later: "prefix h1 (h1 @ [Mat 2 [[1, 0], [0, 1]]])" by simp
  have cache: "cache_Z c = Some 1" "cache_Y c = Some 3" by (simp_all add: c_def)
  have valid: "3 < length (h1 @ [Mat 2 [[1, 0], [0, 1]]])" by (simp add: h1_def)
  have val: "softmax_value (h ! 0) = h1 ! 2"
    using softmax_backward_closed_form [OF run rows later cache valid, of 0] by simp
  have sub: "broadcast2 (-) (h1 ! 2) ((h1 @ [Mat 2 [[1, 0], [0, 1]]]) ! 3) =
      Inr (Mat 2 [[1 / 2 - 1, exp (- 2) / (exp (- 2) + 1)], [1 / 2, 1 / (exp (- 2) + 1) - 1]])"
    by (simp add: h1_def np_eval upt_unfold)
  from softmax_backward_closed_form [OF run rows later cache valid, of 0]
  have "softmax_backward (h1 @ [Mat 2 [[1, 0], [0, 1]]]) 0 c =
          Inr ((h1 @ [Mat 2 [[1, 0], [0, 1]]]) @
               [h1 ! 1, h1 ! 2,
                Mat 2 [[1 / 2 - 1, exp (- 2) / (exp (- 2) + 1)], [1 / 2, 1 / (exp (- 2) + 1) - 1]]],
               length (h1 @ [Mat 2 [[1, 0], [0, 1]]]) + 2)"
    by (simp only: val sub thenE_def sum.case)
  then show ?thesis
    using run by (simp add: h_def h1_def c_def)
qed


section \<open>Forward engine\<close>

lemma thenE_Inl: "thenE (Inl e) f = Inl e"
  by (simp add: thenE_def)

lemma thenE_Inr: "thenE (Inr x) f = f x"
  by (simp add: thenE_def)

lemma thenE_assoc: "thenE (thenE r f) g = thenE r (\<lambda>x. thenE (f x) g)"
  by (simp add: thenE_def split: sum.splits)

lemma apply_layers_append:
  "apply_layers ps (xs @ ys) h A =
     thenE (apply_layers ps xs h A) (\<lambda>(h1, A1, cs1).
     thenE (apply_layers ps ys h1 A1) (\<lambda>(h2, A2, cs2). Inr (h2, A2, cs1 @ cs2)))"
proof (induction xs arbitrary: h A)
  case Nil
  show ?case by (simp add: thenE_def split: sum.splits)
next
  case (Cons x xs)
  obtain i act where x: "x = (i, act)" by (cases x)
  show ?case
    by (simp add: x Cons.IH thenE_def split: sum.splits prod.splits)
qed

lemma forward_loop_apply_layers:
  "forward_loop ps is h A acc =
     thenE (apply_layers ps (map (\<lambda>i. (i, ''relu'')) is) h A)
       (\<lambda>(h', A', cs). Inr (h', A', acc @ cs))"
proof (induction "is" arbitrary: h A acc)
  case Nil
  show ?case by (simp add: thenE_def)
next
  case (Cons i "is")
  show ?case
    by (simp add: Cons.IH thenE_def split: sum.splits prod.splits)
qed

lemma length_apply_layers:
  "apply_layers ps plan h A = Inr (h', AL, cs) \<Longrightarrow> length cs = length plan"
proof (induction plan arbitrary: h A h' AL cs)
  case Nil
  then show ?case by simp
next
  case (Cons x plan)
  obtain i act where x: "x = (i, act)" by (cases x)
  from Cons.prems Cons.IH show ?case
    by (auto simp add: x thenE_def split: sum.splits prod.splits)
qed

lemma length_layer_plan: "1 \<le> L \<Longrightarrow> int (length (layer_plan L)) = L"
  by (simp add: layer_plan_def py_range_def)

lemma linear_activation_forward_cache:
  "linear_activation_forward h A W b act = Inr (h1, A1, c) \<Longrightarrow>
     cache_A c = A \<and> cache_W c = W \<and> cache_b c = b"
  by (auto simp add: linear_activation_forward_def linear_forward_def relu_def softmax_def
      thenE_def alloc_def Let_def split: sum.splits prod.splits if_splits)

lemma apply_layers_refs:
  "apply_layers ps plan h A = Inr (h', AL, cs) \<Longrightarrow> k < length plan \<Longrightarrow>
     dict_get ps (fkey ''w'' (fst (plan ! k))) = Inr (cache_W (cs ! k)) \<and>
     dict_get ps (fkey ''b'' (fst (plan ! k))) = Inr (cache_b (cs ! k))"
proof (induction plan arbitrary: h A h' AL cs k)
  case Nil
  then show ?case by simp
next
  case (Cons x plan)
  obtain i act where x: "x = (i, act)" by (cases x)
  from Cons.prems(1) obtain W b h1 A1 c h2 cs' where
    w: "dict_get ps (fkey ''w'' i) = Inr W" and b: "dict_get ps (fkey ''b'' i) = Inr b"
    and l: "linear_activation_forward h A W b act = Inr (h1, A1, c)"
    and r: "apply_layers ps plan h1 A1 = Inr (h', AL, cs')" and cs: "cs = c # cs'"
    by (auto simp add: x thenE_def split: sum.splits prod.splits)
  show ?case
  proof (cases k)
    case 0
    with w b linear_activation_forward_cache [OF l] show ?thesis by (simp add: x cs)
  next
    case (Suc k')
    with Cons.prems(2) Cons.IH [OF r, of k'] show ?thesis by (simp add: cs)
  qed
qed

lemma nth_layer_plan: "k < nat L \<Longrightarrow> 1 \<le> L \<Longrightarrow> fst (layer_plan L ! k) = int k + 1"
  by (auto simp add: layer_plan_def py_range_def nth_append)

lemmas fwd_eval = L_model_forward_def forward_loop.simps linear_activation_forward_def
  linear_forward_def relu_def relu_func_def softmax_def np_dot_def dict_get_def py_range_def
  fkey_def str_int_def digits_of.simps

lemmas bwd_eval = L_model_backward_def backward_loop.simps linear_activation_backward_def
  linear_backward_def relu_backward_def softmax_backward_def d_relu_def cache_get_def
  py_index_def store_grads_def transpose_mat_def np_sum_axis1_def softmax_def np_dot_def
  py_range_def fkey_def str_int_def digits_of.simps

lemmas upd_eval = update_parameters_def update_loop.simps inplace_sub_def grad_value_def
  reshape_column_def dict_get_def py_range_def fkey_def str_int_def digits_of.simps

lemma ex_forward:
  "L_model_forward ex_net ex_heap 0 ex_params False = Inr (ex_heap_forward, 10, ex_caches)"
  by (simp add: ex_net_def ex_heap_def ex_params_def ex_heap_forward_def ex_caches_def
      fwd_eval np_eval upt_unfold)

lemma ex_backward:
  "L_model_backward ex_net ex_heap_forward 10 5 ex_caches =
     Inr (ex_heap_backward, ex_grads, ex_caches[1 := (ex_caches ! 1)\<lparr>cache_Y := Some 5\<rparr>])"
  by (simp add: ex_net_def ex_heap_def ex_heap_forward_def ex_caches_def ex_heap_backward_def
      ex_grads_def bwd_eval np_eval upt_unfold)

lemma ex_update:
  "update_parameters ex_heap_backward ex_params ex_grads 1 =
     Inr (ex_heap_backward[3 := Mat 1 [[1 / 2], [- 1 / 2]], 4 := Mat 1 [[1 / 2], [- 1 / 2]]],
          ex_params)"
  by (simp add: ex_heap_def ex_heap_forward_def ex_heap_backward_def ex_params_def ex_grads_def
      upd_eval np_eval upt_unfold)

text \<open>
  Claim C3.  For a network object with \<open>n_layers = L\<close>, \<open>1 \<le> L\<close>, the forward pass is
  the chain of layer units of the plan: the ReLU unit on the layers \<open>1\<close> to \<open>L - 1\<close> in
  order, then the softmax unit on layer \<open>L\<close>; it fails exactly when a unit of the chain
  fails.  When it returns, it returns the last activation and exactly \<open>L\<close> caches, the
  \<open>k\<close>-th of them holding the weight and bias arrays of layer \<open>k + 1\<close>.
\<close>

theorem L_model_forward_layers:
  assumes "n_layers self = Some L" and "1 \<le> L"
  shows "L_model_forward self h X ps use_batchnorm = apply_layers ps (layer_plan L) h X \<and>
         (\<forall>h' AL cs. L_model_forward self h X ps use_batchnorm = Inr (h', AL, cs) \<longrightarrow>
            int (length cs) = L \<and>
            (\<forall>k < length cs.
               dict_get ps (fkey ''w'' (int k + 1)) = Inr (cache_W (cs ! k)) \<and>
               dict_get ps (fkey ''b'' (int k + 1)) = Inr (cache_b (cs ! k))))"
proof -
  have eq: "L_model_forward self h X ps use_batchnorm = apply_layers ps (layer_plan L) h X"
    using assms(1)
    by (simp add: L_model_forward_def layer_plan_def apply_layers_append
        forward_loop_apply_layers thenE_def split: sum.splits prod.splits)
  moreover have "int (length cs) = L \<and>
            (\<forall>k < length cs.
               dict_get ps (fkey ''w'' (int k + 1)) = Inr (cache_W (cs ! k)) \<and>
               dict_get ps (fkey ''b'' (int k + 1)) = Inr (cache_b (cs ! k)))"
    if "apply_layers ps (layer_plan L) h X = Inr (h', AL, cs)" for h' AL cs
  proof -
    have len: "length cs = length (layer_plan L)" by (rule length_apply_layers [OF that])
    have L: "int (length cs) = L" using len length_layer_plan [OF assms(2)] by simp
    have "dict_get ps (fkey ''w'' (int k + 1)) = Inr (cache_W (cs ! k)) \<and>
          dict_get ps (fkey ''b'' (int k + 1)) = Inr (cache_b (cs ! k))" if k: "k < length cs" for k
    proof -
      have "k < nat L" using k L by simp
      from nth_layer_plan [OF this assms(2)] apply_layers_refs [OF \<open>apply_layers ps (layer_plan L) h X = Inr (h', AL, cs)\<close>, of k] k len
      show ?thesis by simp
    qed
    with L show ?thesis by simp
  qed
  ultimately show ?thesis by simp
qed

theorem L_model_forward_layers_witness:
  "n_layers ex_net = Some 2 \<and> (1::int) \<le> 2 \<and>
   apply_layers ex_params (layer_plan 2) ex_heap 0 = Inr (ex_heap_forward, 10, ex_caches) \<and>
   L_model_forward ex_net ex_heap 0 ex_params False = Inr (ex_heap_forward, 10, ex_caches) \<and>
   int (length ex_caches) = 2"
proof -
  have n: "n_layers ex_net = Some 2" by (simp add: ex_net_def)
  have "apply_layers ex_params (layer_plan 2) ex_heap 0 = Inr (ex_heap_forward, 10, ex_caches)"
    using L_model_forward_layers [OF n, of ex_heap 0 ex_params False] ex_forward by simp
  moreover have "int (length ex_caches) = 2"
    using L_model_forward_layers [OF n, of ex_heap 0 ex_params False] ex_forward by simp
  ultimately show ?thesis using n ex_forward by simp
qed

text \<open>
  Claim C8.  The flag \<open>use_batchnorm\<close> is not read: two forward passes that differ only
  in the flag return the same heap, activation and caches, or the same exception.
\<close>

theorem use_batchnorm_not_wired:
  "L_model_forward self h X ps b1 = L_model_forward self h X ps b2"
  by (simp add: L_model_forward_def)

section \<open>The passes only allocate\<close>

lemma prefix_snoc: "prefix h h' \<Longrightarrow> prefix h (h' @ [m])"
  by (simp add: prefix_def) auto

lemma prefix_trans2: "prefix (a::heap) b \<Longrightarrow> prefix b c \<Longrightarrow> prefix a c"
  by (rule prefix_order.trans)

lemma softmax_extends: "softmax h Z = Inr (h', A, Zs) \<Longrightarrow> prefix h h'"
  by (auto simp add: softmax_def thenE_def alloc_def Let_def split: sum.splits)

lemma relu_extends: "relu h Z = Inr (h', A, Zc) \<Longrightarrow> prefix h h'"
  by (auto simp add: relu_def thenE_def alloc_def Let_def split: sum.splits)

lemma linear_forward_extends: "linear_forward h A W b = Inr (h', Z, c) \<Longrightarrow> prefix h h'"
  by (auto simp add: linear_forward_def thenE_def alloc_def Let_def split: sum.splits)

lemma linear_activation_forward_extends:
  "linear_activation_forward h A W b act = Inr (h', A', c) \<Longrightarrow> prefix h h'"
  by (auto simp add: linear_activation_forward_def thenE_def
      split: sum.splits prod.splits if_splits
      dest!: linear_forward_extends relu_extends softmax_extends
      intro: prefix_trans2)

lemma forward_loop_extends:
  "forward_loop ps is h A acc = Inr (h', A', cs) \<Longrightarrow> prefix h h'"
proof (induction "is" arbitrary: h A acc)
  case Nil
  then show ?case by simp
next
  case (Cons i "is")
  from Cons.prems obtain w b h1 A1 c where
    l: "linear_activation_forward h A w b ''relu'' = Inr (h1, A1, c)"
    and r: "forward_loop ps is h1 A1 (acc @ [c]) = Inr (h', A', cs)"
    by (auto simp add: thenE_def split: sum.splits prod.splits)
  from linear_activation_forward_extends [OF l] Cons.IH [OF r] show ?case
    by (rule prefix_trans2)
qed

lemma L_model_forward_extends:
  "L_model_forward self h X ps flag = Inr (h', AL, cs) \<Longrightarrow> prefix h h'"
  by (auto simp add: L_model_forward_def thenE_def
      split: option.splits sum.splits prod.splits
      dest!: forward_loop_extends linear_activation_forward_extends intro: prefix_trans2)

lemma linear_backward_extends:
  "linear_backward h dZ c = Inr (h', dA, dW, db) \<Longrightarrow> prefix h h'"
  by (auto simp add: linear_backward_def thenE_def alloc_def Let_def prefix_def
      split: sum.splits if_splits)

lemma relu_backward_extends: "relu_backward h dA c = Inr (h', dZ) \<Longrightarrow> prefix h h'"
  by (auto simp add: relu_backward_def thenE_def alloc_def Let_def split: sum.splits)

lemma softmax_backward_extends: "softmax_backward h dA c = Inr (h', dZ) \<Longrightarrow> prefix h h'"
  by (auto simp add: softmax_backward_def thenE_def alloc_def Let_def
      split: sum.splits prod.splits dest!: softmax_extends intro: prefix_snoc)

lemma linear_activation_backward_extends:
  "linear_activation_backward h dA c act = Inr (h', dA', dW, db) \<Longrightarrow> prefix h h'"
  by (auto simp add: linear_activation_backward_def thenE_def
      split: sum.splits prod.splits if_splits
      dest!: linear_backward_extends relu_backward_extends softmax_backward_extends
      intro: prefix_trans2)

lemma backward_loop_extends:
  "backward_loop n index caches is h dA grads = Inr (h', grads') \<Longrightarrow> prefix h h'"
proof (induction "is" arbitrary: h dA grads)
  case Nil
  then show ?case by simp
next
  case (Cons i "is")
  from Cons.prems obtain k h1 dA1 dW db where
    l: "linear_activation_backward h dA (caches ! k) ''relu'' = Inr (h1, dA1, dW, db)"
    and r: "backward_loop n index caches is h1 dA1 (store_grads grads (n - i) dA1 dW db) =
              Inr (h', grads')"
    by (auto simp add: thenE_def split: sum.splits prod.splits)
  from linear_activation_backward_extends [OF l] Cons.IH [OF r] show ?case
    by (rule prefix_trans2)
qed

lemma L_model_backward_extends:
  "L_model_backward self h AL Y caches = Inr (h', grads, caches') \<Longrightarrow> prefix h h'"
  by (auto simp add: L_model_backward_def thenE_def Let_def
      split: option.splits sum.splits prod.splits
      dest!: backward_loop_extends linear_activation_backward_extends intro: prefix_trans2)

lemma prefix_nth: "prefix h h' \<Longrightarrow> a < length h \<Longrightarrow> h' ! a = h ! a"
  by (auto simp add: prefix_def nth_append)

lemma update_loop_length:
  "update_loop ps grads lr ls h = Inr h' \<Longrightarrow> length h' = length h"
proof (induction ls arbitrary: h)
  case Nil
  then show ?case by simp
next
  case (Cons l ls)
  from Cons.prems obtain w w' b b' where
    "update_loop ps grads lr ls (h[w := w', b := b']) = Inr h'"
    by (auto simp add: thenE_def Let_def split: sum.splits)
  from Cons.IH [OF this] show ?case by simp
qed



text \<open>
  Claim C9.  A forward pass followed by a backward pass only extends the heap: every
  array that existed before, and so every weight and bias array the parameter dict refers
  to, holds the same value after each pass, and neither pass assigns to the dict.
  \<open>update_parameters\<close> is the method that writes: it returns the same dict and a heap of
  the same length whose parameter arrays it has overwritten in place (the example below
  shows a weight array changing).
\<close>

theorem passes_leave_parameters:
  assumes fwd: "L_model_forward self h X ps use_batchnorm = Inr (h1, AL, caches)"
    and bwd: "L_model_backward self h1 AL Y caches = Inr (h2, grads, caches')"
  shows "prefix h h1 \<and> prefix h1 h2 \<and>
         (\<forall>k a. dict_get ps k = Inr a \<and> a < length h \<longrightarrow> h1 ! a = h ! a \<and> h2 ! a = h ! a) \<and>
         (\<forall>lr h3 ps'. update_parameters h2 ps grads lr = Inr (h3, ps') \<longrightarrow>
            ps' = ps \<and> length h3 = length h2)"
proof -
  have f: "prefix h h1" by (rule L_model_forward_extends [OF fwd])
  have b: "prefix h1 h2" by (rule L_model_backward_extends [OF bwd])
  have fb: "prefix h h2" by (rule prefix_trans2 [OF f b])
  have "ps' = ps \<and> length h3 = length h2"
    if "update_parameters h2 ps grads lr = Inr (h3, ps')" for lr h3 ps'
    using that
    by (auto simp add: update_parameters_def thenE_def Let_def split: sum.splits
        dest: update_loop_length)
  with f b fb show ?thesis
    by (auto simp add: prefix_nth)
qed

theorem passes_leave_parameters_witness:
  "L_model_forward ex_net ex_heap 0 ex_params False = Inr (ex_heap_forward, 10, ex_caches) \<and>
   L_model_backward ex_net ex_heap_forward 10 5 ex_caches =
     Inr (ex_heap_backward, ex_grads, ex_caches[1 := (ex_caches ! 1)\<lparr>cache_Y := Some 5\<rparr>]) \<and>
   dict_get ex_params ''w2'' = Inr 3 \<and> 3 < length ex_heap \<and>
   ex_heap_forward ! 3 = ex_heap ! 3 \<and> ex_heap_backward ! 3 = ex_heap ! 3 \<and>
   update_parameters ex_heap_backward ex_params ex_grads 1 =
     Inr (ex_heap_backward[3 := Mat 1 [[1 / 2], [- 1 / 2]], 4 := Mat 1 [[1 / 2], [- 1 / 2]]],
          ex_params) \<and>
   (ex_heap_backward[3 := Mat 1 [[1 / 2], [- 1 / 2]], 4 := Mat 1 [[1 / 2], [- 1 / 2]]]) ! 3
     \<noteq> ex_heap ! 3"
proof -
  have k: "dict_get ex_params ''w2'' = Inr 3 \<and> 3 < length ex_heap"
    by (simp add: ex_params_def ex_heap_def dict_get_def)
  with passes_leave_parameters [OF ex_forward ex_backward]
  have "ex_heap_forward ! 3 = ex_heap ! 3 \<and> ex_heap_backward ! 3 = ex_heap ! 3"
    by blast
  moreover have
    "(ex_heap_backward[3 := Mat 1 [[1 / 2], [- 1 / 2]], 4 := Mat 1 [[1 / 2], [- 1 / 2]]]) ! 3
       \<noteq> ex_heap ! 3"
    by (simp add: ex_heap_backward_def ex_heap_forward_def ex_heap_def)
  ultimately show ?thesis
    using k ex_forward ex_backward ex_update by simp
qed


section \<open>Initialisation never signals a configuration error\<close>

lemma init_loop_extends:
  "init_loop dims is g h ps = Inr (g', h', ps') \<Longrightarrow> prefix h h'"
proof (induction "is" arbitrary: g h ps)
  case Nil
  then show ?case by simp
next
  case (Cons i "is")
  from Cons.prems obtain g2 m1 m2 ps2 where
    "init_loop dims is g2 ((h @ [m1]) @ [m2]) ps2 = Inr (g', h', ps')"
    by (auto simp add: Let_def alloc_def thenE_def split: prod.splits if_splits sum.splits)
  from Cons.IH [OF this] show ?case by (auto simp add: prefix_def)
qed

lemma init_loop_succeeds:
  "refused g = rf \<Longrightarrow>
   list_all (\<lambda>i. 0 < dims ! i \<and> 0 < dims ! (i - 1) \<and>
                 rf (nat (dims ! i)) (nat (dims ! (i - 1))) = None \<and>
                 rf (nat (dims ! i)) 1 = None) is \<Longrightarrow>
   \<exists>g' h' ps'. init_loop dims is g h ps = Inr (g', h', ps')"
proof (induction "is" arbitrary: g h ps)
  case Nil
  show ?case by simp
next
  case (Cons i "is")
  from Cons.prems have rest:
    "list_all (\<lambda>i. 0 < dims ! i \<and> 0 < dims ! (i - 1) \<and>
                 rf (nat (dims ! i)) (nat (dims ! (i - 1))) = None \<and>
                 rf (nat (dims ! i)) 1 = None) is"
    and here: "0 < dims ! i" "0 < dims ! (i - 1)"
      "refused g (nat (dims ! i)) (nat (dims ! (i - 1))) = None"
      "refused g (nat (dims ! i)) 1 = None"
    by simp_all
  have "refused (g\<lparr>drawn := d\<rparr>) = rf" for d
    using Cons.prems(1) by simp
  from Cons.IH [OF this rest] here show ?case
    by (simp add: randn_def thenE_def Let_def alloc_def)
qed

lemmas init_eval = initialize_parameters_def init_loop.simps randn_def fkey_def str_int_def
  digits_of.simps thenE_def

lemma ex_initialize:
  "initialize_parameters ex_rng [] [1, 2] =
     Inr (\<lparr>n_layers = Some 1\<rparr>, ex_rng\<lparr>drawn := 4\<rparr>, [Mat 1 [[0], [0]], Mat 1 [[0], [0]]],
          [(''w1'', 0), (''b1'', 1)])"
  by (simp add: init_eval ex_rng_def np_eval upt_unfold)

text \<open>
  A list of two dimensions is no guarantee of success: numpy's own errors come
  through, here for an input size of 0 and for a layer of \<open>2\<^sup>6\<^sup>3\<close> units.
\<close>

lemma ex_initialize_zero:
  "initialize_parameters ex_rng [] [0, 2] = Inl ZeroDivisionError"
  by (simp add: init_eval ex_rng_def np_eval upt_unfold)

lemma ex_initialize_refused:
  "initialize_parameters ex_rng [] [1, 2 ^ 63] = Inl ValueError"
  by (simp add: init_eval ex_rng_def upt_unfold)

text \<open>
  Claim C5 says that initialisation fails exactly on a list of fewer than two
  dimensions.  The code has no such check: on a list of one dimension the loop body
  never runs and the method returns an empty dict.
\<close>

theorem initialize_single_layer_no_error:
  "length [5 :: int] < 2 \<and>
   initialize_parameters ex_rng [] [5] = Inr (\<lparr>n_layers = Some 0\<rparr>, ex_rng, [], [])"
  by (simp add: init_eval)

text \<open>
  Claim C5, amended.  \<open>initialize_parameters\<close> does not fail on a list of fewer than
  two dimensions: it returns the empty dict, sets \<open>n_layers = len - 1\<close> and leaves the
  random source and the heap alone.  On a list of positive dimensions whose weight and
  bias arrays numpy can allocate, so on every such list of two or more dimensions, it
  succeeds, and nothing already on the heap changes.
\<close>

theorem initialize_parameters_accepts:
  "(length layer_dims < 2 \<longrightarrow>
      initialize_parameters g h layer_dims =
        Inr (\<lparr>n_layers = Some (int (length layer_dims) - 1)\<rparr>, g, h, [])) \<and>
   (list_all (\<lambda>d. 0 < d) layer_dims \<and>
    list_all (\<lambda>i. refused g (nat (layer_dims ! i)) (nat (layer_dims ! (i - 1))) = None \<and>
                  refused g (nat (layer_dims ! i)) 1 = None) [1..<length layer_dims] \<longrightarrow>
      (\<exists>g' h' ps. initialize_parameters g h layer_dims =
         Inr (\<lparr>n_layers = Some (int (length layer_dims) - 1)\<rparr>, g', h', ps) \<and> prefix h h'))"
proof -
  have b: "initialize_parameters g h layer_dims =
        Inr (\<lparr>n_layers = Some (int (length layer_dims) - 1)\<rparr>, g, h, [])"
    if "length layer_dims < 2"
  proof -
    from that have "[1..<length layer_dims] = []" by simp
    then have "init_loop layer_dims [1..<length layer_dims] g h [] = Inr (g, h, [])"
      by (simp only: init_loop.simps)
    then show ?thesis by (simp only: initialize_parameters_def thenE_def sum.case prod.case)
  qed
  have c: "\<exists>g' h' ps. initialize_parameters g h layer_dims =
         Inr (\<lparr>n_layers = Some (int (length layer_dims) - 1)\<rparr>, g', h', ps) \<and> prefix h h'"
    if pos: "list_all (\<lambda>d. 0 < d) layer_dims"
      and room: "list_all (\<lambda>i. refused g (nat (layer_dims ! i)) (nat (layer_dims ! (i - 1))) = None \<and>
                    refused g (nat (layer_dims ! i)) 1 = None) [1..<length layer_dims]"
  proof -
    have "list_all (\<lambda>i. 0 < layer_dims ! i \<and> 0 < layer_dims ! (i - 1) \<and>
              refused g (nat (layer_dims ! i)) (nat (layer_dims ! (i - 1))) = None \<and>
              refused g (nat (layer_dims ! i)) 1 = None) [1..<length layer_dims]"
      using pos room by (auto simp add: list_all_iff)
    from init_loop_succeeds [OF refl this]
    obtain g' h' ps where r: "init_loop layer_dims [1..<length layer_dims] g h [] = Inr (g', h', ps)"
      by blast
    from init_loop_extends [OF r] r show ?thesis
      by (simp add: initialize_parameters_def thenE_def)
  qed
  from b c show ?thesis by blast
qed

theorem initialize_parameters_accepts_witness:
  "length [5 :: int] < 2 \<and> list_all (\<lambda>d. 0 < d) [1, 2 :: int] \<and>
   refused ex_rng 2 1 = None \<and>
   initialize_parameters ex_rng [] [5] = Inr (\<lparr>n_layers = Some 0\<rparr>, ex_rng, [], []) \<and>
   (\<exists>g' h' ps. initialize_parameters ex_rng [] [1, 2] = Inr (\<lparr>n_layers = Some 1\<rparr>, g', h', ps))"
proof -
  have room: "refused ex_rng 2 1 = None"
    by (simp add: ex_rng_def)
  have "initialize_parameters ex_rng [] [5] = Inr (\<lparr>n_layers = Some 0\<rparr>, ex_rng, [], [])"
    using initialize_parameters_accepts [of "[5]" ex_rng "[]"] by simp
  moreover have "\<exists>g' h' ps. initialize_parameters ex_rng [] [1, 2] =
                   Inr (\<lparr>n_layers = Some 1\<rparr>, g', h', ps)"
    using initialize_parameters_accepts [of "[1, 2]" ex_rng "[]"] room
    by (simp add: upt_unfold)
  ultimately show ?thesis using room by simp
qed


section \<open>Training loop\<close>

lemma sampling_point_0: "sampling_point 0"
  by (simp add: sampling_point_def py_fmod_def)

lemma sampling_point_iff: "sampling_point index \<longleftrightarrow> 50000 dvd index"
proof
  assume "sampling_point index"
  then have "real index / 500 = 100 * of_int \<lfloor>real index / 500 / 100\<rfloor>"
    by (simp add: sampling_point_def py_fmod_def)
  then have "real index = 50000 * of_int \<lfloor>real index / 500 / 100\<rfloor>" by simp
  moreover have "0 \<le> \<lfloor>real index / 500 / 100\<rfloor>" by simp
  ultimately have "real index = real (50000 * nat \<lfloor>real index / 500 / 100\<rfloor>)"
    by simp
  then have "index = 50000 * nat \<lfloor>real index / 500 / 100\<rfloor>"
    by (simp only: of_nat_eq_iff)
  then show "50000 dvd index" by (rule dvdI)
next
  assume "50000 dvd index"
  then obtain k where "index = 50000 * k" by (rule dvdE)
  then show "sampling_point index"
    by (simp add: sampling_point_def py_fmod_def)
qed


lemma within_epsilon_inf: "\<not> within_epsilon np_inf acc"
  by (simp add: within_epsilon_def np_inf_def)

lemma within_epsilon_finite: "within_epsilon prev acc \<Longrightarrow> \<exists>p. prev = Fin p"
  by (cases prev) (simp_all add: within_epsilon_def)

lemma sample_outcome:
  assumes "sample r t h z_output batch_y = Inr (stop, t1)"
  shows "\<exists>h1 acc cost.
           predict (net r) h (X_validation r) (Y_validation r) (params t) = Inr (h1, acc) \<and>
           compute_cost h1 z_output batch_y = Inr cost \<and>
           stop = within_epsilon (prev_val_acc t) acc \<and>
           (if stop
            then t1 = t\<lparr>heap_of := h1, converged := True\<rparr>
            else t1 = t\<lparr>heap_of := h1, prev_val_acc := acc,
                          training_step := training_step t + 1,
                          history := history t @ [cost],
                          accuracy_history := accuracy_history t @ [acc]\<rparr>)"
  using assms
  by (auto simp add: sample_def thenE_def split: sum.splits prod.splits if_splits)

lemma batch_body_fields:
  assumes "batch_body r t index = Inr (stop, t1)"
  shows "(\<not> sampling_point index \<longrightarrow>
            \<not> stop \<and> prev_val_acc t1 = prev_val_acc t \<and> converged t1 = converged t \<and>
            history t1 = history t \<and> accuracy_history t1 = accuracy_history t) \<and>
         (sampling_point index \<longrightarrow>
            (\<exists>h z y t2. sample r t h z y = Inr (stop, t2) \<and>
               prev_val_acc t1 = prev_val_acc t2 \<and> converged t1 = converged t2 \<and>
               history t1 = history t2 \<and> accuracy_history t1 = accuracy_history t2))"
  using assms
  by (auto simp add: batch_body_def thenE_def update_parameters_def Let_def
      split: sum.splits prod.splits if_splits) blast+

subsection \<open>One pass through the loop body on the example\<close>

lemmas ex_defs = ex_net_def ex_heap_def ex_params_def ex_run_def ex_trainer_def ex_trainer0_def
  ex_heap_batch_def ex_heap_batch_forward_def ex_heap_sampled_def ex_batch_caches_def

lemmas train_eval = take_batch_def slice_columns_def predict_def np_argmax_axis0_def
  argmax_list_def np_equal_def compute_cost_def mask_select_def np_sum_all_def
  within_epsilon_def EPSILON_def np_inf_def

lemma ex_take_batch: "take_batch ex_run ex_heap 0 = (ex_heap_batch, 6, 7)"
  by (simp add: ex_defs train_eval np_eval upt_unfold)

lemma ex_batch_forward:
  "L_model_forward ex_net ex_heap_batch 6 ex_params False =
     Inr (ex_heap_batch_forward, 12, ex_batch_caches)"
  by (simp add: ex_defs fwd_eval np_eval upt_unfold)

lemma ex_predict:
  "predict ex_net ex_heap_batch_forward 0 5 ex_params = Inr (ex_heap_sampled, Fin 1)"
  by (simp add: ex_defs train_eval fwd_eval np_eval upt_unfold)

lemma ex_cost: "compute_cost ex_heap_sampled 12 7 = Inr (Fin (ln 2))"
  by (simp add: ex_defs train_eval np_eval upt_unfold ln_div)

lemma ex_sample_converges:
  "sample ex_run ex_trainer ex_heap_batch_forward 12 7 =
     Inr (True, ex_trainer\<lparr>heap_of := ex_heap_sampled, converged := True\<rparr>)"
proof -
  have p: "predict (net ex_run) ex_heap_batch_forward (X_validation ex_run) (Y_validation ex_run)
             (params ex_trainer) = Inr (ex_heap_sampled, Fin 1)"
    using ex_predict by (simp add: ex_run_def ex_trainer_def)
  show ?thesis
    by (simp add: sample_def p ex_cost thenE_def)
      (simp add: ex_trainer_def within_epsilon_def EPSILON_def)
qed

lemma ex_batch_body_converges:
  "batch_body ex_run ex_trainer 0 =
     Inr (True, ex_trainer\<lparr>heap_of := ex_heap_sampled, converged := True\<rparr>)"
proof -
  have t: "heap_of ex_trainer = ex_heap" "params ex_trainer = ex_params"
    by (simp_all add: ex_trainer_def)
  have n: "net ex_run = ex_net" by (simp add: ex_run_def)
  show ?thesis
    by (simp add: batch_body_def t n ex_take_batch ex_batch_forward thenE_def sampling_point_0
        ex_sample_converges)
qed

lemma ex_sample_first:
  "sample ex_run ex_trainer0 ex_heap_batch_forward 12 7 =
     Inr (False, ex_trainer0\<lparr>heap_of := ex_heap_sampled, prev_val_acc := Fin 1,
                   training_step := 1, history := [Fin (ln 2)],
                   accuracy_history := [Fin 1]\<rparr>)"
proof -
  have p: "predict (net ex_run) ex_heap_batch_forward (X_validation ex_run) (Y_validation ex_run)
             (params ex_trainer0) = Inr (ex_heap_sampled, Fin 1)"
    using ex_predict by (simp add: ex_run_def ex_trainer0_def)
  show ?thesis
    by (simp add: sample_def p ex_cost thenE_def)
      (simp add: ex_trainer0_def within_epsilon_def np_inf_def)
qed

lemma ex_train_backward:
  "L_model_backward ex_net ex_heap_sampled 12 7 ex_batch_caches =
     Inr (ex_heap_gradients, ex_batch_grads,
          ex_batch_caches[1 := (ex_batch_caches ! 1)\<lparr>cache_Y := Some 7\<rparr>])"
  by (simp add: ex_defs ex_heap_gradients_def ex_batch_grads_def bwd_eval np_eval upt_unfold)

lemma ex_train_update:
  "update_parameters ex_heap_gradients ex_params ex_batch_grads 1 =
     Inr (ex_heap_trained, ex_params)"
  by (simp add: ex_defs ex_heap_gradients_def ex_batch_grads_def ex_heap_trained_def
      upd_eval np_eval upt_unfold)

lemma ex_batch_body_first:
  "batch_body ex_run ex_trainer0 0 =
     Inr (False, \<lparr>heap_of = ex_heap_trained, params = ex_params, prev_val_acc = Fin 1,
                  converged = False, training_step = 1, history = [Fin (ln 2)],
                  accuracy_history = [Fin 1]\<rparr>)"
proof -
  have t: "heap_of ex_trainer0 = ex_heap" "params ex_trainer0 = ex_params"
    by (simp_all add: ex_trainer0_def)
  have n: "net ex_run = ex_net" "learning_rate ex_run = 1" by (simp_all add: ex_run_def)
  show ?thesis
    by (simp add: batch_body_def t n ex_take_batch ex_batch_forward thenE_def sampling_point_0
        ex_sample_first ex_train_backward ex_train_update)
      (simp add: ex_trainer0_def)
qed

subsection \<open>The example run\<close>

text \<open>
  Epoch 0 passes once through the body, at a sampling point, records a sample and
  updates the parameters; in epoch 1 the accuracy repeats and the body breaks; epoch 2
  finds \<open>converged\<close> set, reports and breaks.  The run returns a history of one cost.
\<close>

lemma thenE_weak_cong: "r = r' \<Longrightarrow> thenE r f = thenE r' f"
  by simp

lemma case_prod_weak_cong: "p = p' \<Longrightarrow> case_prod f p = case_prod f p'"
  by simp

lemmas ex2_defs = ex2_net_def ex2_params_def ex2_heap_def ex2_heap_init_def ex2_run_def
  ex2_pass_def ex2_trainer0_def ex2_heap_epoch0_def ex2_trainer1_def ex2_forward_def
  ex2_heap_batch_def ex2_heap_batch_forward_def ex2_batch_caches_def ex2_heap_epoch1_def
  ex2_heap_end_def

lemma exp_sum_pos: "0 < 1 + exp (x :: real)"
  by (simp add: add_pos_pos)

lemma ex2_max:
  "max (1 / (1 + exp (- 2 :: real))) (exp (- 2) / (1 + exp (- 2))) = 1 / (1 + exp (- 2))"
proof -
  have "exp (- 2 :: real) \<le> 1" by simp
  then have "exp (- 2 :: real) / (1 + exp (- 2)) \<le> 1 / (1 + exp (- 2))"
    by (intro divide_right_mono) (simp_all add: less_imp_le [OF exp_sum_pos])
  then show ?thesis by (rule max_absorb1)
qed

lemma ex2_body0: "batch_body ex2_run ex2_trainer0 0 = Inr (False, ex2_trainer1)"
  by (simp add: batch_body_def sample_def sampling_point_0 ex2_defs train_eval fwd_eval
      bwd_eval upd_eval np_eval upt_unfold ln_div)

lemma ex2_take_batch: "take_batch ex2_run ex2_heap_epoch0 0 = (ex2_heap_batch, 21, 22)"
  by (simp add: ex2_defs train_eval np_eval upt_unfold)

lemma ex2_batch_forward:
  "L_model_forward ex2_net ex2_heap_batch 21 ex2_params False =
     Inr (ex2_heap_batch_forward, 25, ex2_batch_caches)"
  by (simp add: ex2_defs fwd_eval np_eval upt_unfold)

lemma ex2_predict:
  "predict ex2_net ex2_heap_batch_forward 2 3 ex2_params = Inr (ex2_heap_epoch1, Fin 1)"
  by (simp add: ex2_defs train_eval fwd_eval np_eval upt_unfold ex2_max)

lemma ex2_cost:
  "compute_cost ex2_heap_epoch1 25 22 = Inr (Fin (- ln (1 / (1 + exp (- 2)))))"
  by (simp add: ex2_defs train_eval np_eval upt_unfold exp_sum_pos)

lemma ex2_body1:
  "batch_body ex2_run ex2_trainer1 0 =
     Inr (True, ex2_trainer1\<lparr>heap_of := ex2_heap_epoch1, converged := True\<rparr>)"
proof -
  have r: "net ex2_run = ex2_net" "X_validation ex2_run = 2" "Y_validation ex2_run = 3"
    by (simp_all add: ex2_run_def)
  have t: "heap_of ex2_trainer1 = ex2_heap_epoch0" "params ex2_trainer1 = ex2_params"
    "prev_val_acc ex2_trainer1 = Fin 1"
    by (simp_all add: ex2_trainer1_def)
  show ?thesis
    by (simp add: batch_body_def sample_def r t ex2_take_batch ex2_batch_forward ex2_predict
        ex2_cost thenE_def sampling_point_0 within_epsilon_def EPSILON_def)
qed

lemma ex2_report:
  "print_overall_accuracy ex2_net ex2_heap_epoch1 ex2_params (Some (4, 5)) (Some (2, 3)) None =
     Inr ex2_heap_end"
  by (simp add: print_overall_accuracy_def ex2_defs train_eval fwd_eval np_eval
      upt_unfold ex2_max)

lemma ex2_starts: "batch_starts (ncols (ex2_heap_init ! 4)) 1 = Inr [0]"
  "batch_starts (ncols (ex2_heap_epoch0 ! 4)) 1 = Inr [0]"
  by (simp_all add: batch_starts_def ex2_defs upt_unfold)

lemma ex2_epochs:
  "epoch_loop ex2_run [0, 1, 2] ex2_trainer0 =
     Inr (ex2_trainer1\<lparr>heap_of := ex2_heap_end, converged := True\<rparr>)"
proof -
  have r: "net ex2_run = ex2_net" "X_train ex2_run = 4" "Y_train ex2_run = 5"
    "X_validation ex2_run = 2" "Y_validation ex2_run = 3" "batch_size ex2_run = 1"
    by (simp_all add: ex2_run_def)
  have t: "\<not> converged ex2_trainer0" "heap_of ex2_trainer0 = ex2_heap_init"
    "\<not> converged ex2_trainer1" "heap_of ex2_trainer1 = ex2_heap_epoch0"
    "params ex2_trainer1 = ex2_params"
    by (simp_all add: ex2_trainer0_def ex2_trainer1_def)
  show ?thesis
    by (simp add: r t ex2_starts ex2_body0 ex2_body1 ex2_report thenE_def)
qed

lemma ex2_whole_run:
  "L_layer_model ex_rng ex2_heap 0 1 [1, 2] 1 3 1 = Inr (ex2_heap_end, ex2_params, [Fin (ln 2)])"
  apply (simp only: L_layer_model_def Let_def)
  apply (simp add: take_columns_def np_eval upt_unfold ex_rng_def ex2_heap_def
     del: epoch_loop.simps init_loop.simps cong: thenE_weak_cong case_prod_weak_cong)
  apply (simp add: init_eval np_eval upt_unfold
     del: epoch_loop.simps cong: thenE_weak_cong case_prod_weak_cong)
  apply (insert ex2_epochs)
  apply (simp add: ex2_run_def ex2_trainer0_def ex2_trainer1_def ex2_net_def ex2_params_def
     ex2_heap_init_def ex2_heap_def py_range_def upt_unfold eval_nat_numeral
     del: epoch_loop.simps)
  done

subsection \<open>Convergence\<close>



subsection \<open>History\<close>

text \<open>
  Claim C7 says that every sampling point appends one sample to the history, the
  converging one included.  The code checks convergence before it appends and leaves the
  loop by \<^verbatim>\<open>break\<close>.  The example run passes two sampling points: the first
  records its sample, at the second the accuracy repeats, the body breaks and the history
  is as long as before.  The run returns one cost for two sampling points.
\<close>

theorem converging_sample_not_recorded:
  "L_layer_model ex_rng ex2_heap 0 1 [1, 2] 1 3 1 =
     Inr (ex2_heap_end, ex2_params, [Fin (ln 2)]) \<and>
   epoch_loop ex2_run [0, 1, 2] ex2_trainer0 =
     Inr (ex2_trainer1\<lparr>heap_of := ex2_heap_end, converged := True\<rparr>) \<and>
   sampling_point 0 \<and>
   batch_body ex2_run ex2_trainer0 0 = Inr (False, ex2_trainer1) \<and>
   batch_body ex2_run ex2_trainer1 0 =
     Inr (True, ex2_trainer1\<lparr>heap_of := ex2_heap_epoch1, converged := True\<rparr>) \<and>
   history (ex2_trainer1\<lparr>heap_of := ex2_heap_epoch1, converged := True\<rparr>) =
     history ex2_trainer1 \<and>
   length (history (ex2_trainer1\<lparr>heap_of := ex2_heap_epoch1, converged := True\<rparr>)) \<noteq>
     length (history ex2_trainer1) + 1"
  using ex2_whole_run ex2_epochs sampling_point_0 ex2_body0 ex2_body1
  by (simp del: epoch_loop.simps)

text \<open>
  Claim C7, amended.  At a sampling point the body evaluates the validation accuracy
  with the current parameters, on the heap the forward pass on the batch has left, and
  the cost of that forward pass against the labels of the batch, then checks
  convergence.  When the check triggers, the body breaks with the history and the
  accuracy history as they are.  When it does not, exactly this cost is appended to the
  history and this accuracy to the accuracy history, the accuracy becomes the previous
  one and the step counter grows by one, before the backward pass and the update.
\<close>

theorem sampling_point_records:
  assumes batch: "take_batch r (heap_of t) index = (h2, batch_x, batch_y)"
    and fwd: "L_model_forward (net r) h2 batch_x (params t) False = Inr (h3, z_output, caches)"
    and point: "sampling_point index"
    and acc: "predict (net r) h3 (X_validation r) (Y_validation r) (params t) = Inr (h4, acc)"
    and cost: "compute_cost h4 z_output batch_y = Inr cost"
  shows "(within_epsilon (prev_val_acc t) acc \<longrightarrow>
            batch_body r t index = Inr (True, t\<lparr>heap_of := h4, converged := True\<rparr>)) \<and>
         (\<not> within_epsilon (prev_val_acc t) acc \<longrightarrow>
            batch_body r t index =
              thenE (L_model_backward (net r) h4 z_output batch_y caches) (\<lambda>(h5, grads, _).
              thenE (update_parameters h5 (params t) grads (learning_rate r)) (\<lambda>(h6, params').
                Inr (False, t\<lparr>heap_of := h6, params := params', prev_val_acc := acc,
                              training_step := training_step t + 1,
                              history := history t @ [cost],
                              accuracy_history := accuracy_history t @ [acc]\<rparr>))) \<and>
            (\<forall>stop t1. batch_body r t index = Inr (stop, t1) \<longrightarrow>
               \<not> stop \<and> history t1 = history t @ [cost] \<and>
               accuracy_history t1 = accuracy_history t @ [acc] \<and> prev_val_acc t1 = acc \<and>
               training_step t1 = training_step t + 1))"
proof -
  have s: "sample r t h3 z_output batch_y =
             (if within_epsilon (prev_val_acc t) acc
              then Inr (True, t\<lparr>heap_of := h4, converged := True\<rparr>)
              else Inr (False, t\<lparr>heap_of := h4, prev_val_acc := acc,
                                 training_step := training_step t + 1,
                                 history := history t @ [cost],
                                 accuracy_history := accuracy_history t @ [acc]\<rparr>))"
    using acc cost by (simp add: sample_def thenE_def)
  have stops: "batch_body r t index = Inr (True, t\<lparr>heap_of := h4, converged := True\<rparr>)"
    if "within_epsilon (prev_val_acc t) acc"
    using batch fwd point s that by (simp add: batch_body_def thenE_def)
  have goes: "batch_body r t index =
              thenE (L_model_backward (net r) h4 z_output batch_y caches) (\<lambda>(h5, grads, _).
              thenE (update_parameters h5 (params t) grads (learning_rate r)) (\<lambda>(h6, params').
                Inr (False, t\<lparr>heap_of := h6, params := params', prev_val_acc := acc,
                              training_step := training_step t + 1,
                              history := history t @ [cost],
                              accuracy_history := accuracy_history t @ [acc]\<rparr>)))"
    if "\<not> within_epsilon (prev_val_acc t) acc"
    using batch fwd point s that
    by (simp add: batch_body_def thenE_def split: sum.splits prod.splits)
  have fields: "\<not> stop \<and> history t1 = history t @ [cost] \<and>
               accuracy_history t1 = accuracy_history t @ [acc] \<and> prev_val_acc t1 = acc \<and>
               training_step t1 = training_step t + 1"
    if "\<not> within_epsilon (prev_val_acc t) acc" "batch_body r t index = Inr (stop, t1)"
    for stop t1
    using that(2) unfolding goes [OF that(1)]
    by (auto simp add: thenE_def split: sum.splits prod.splits)
  from stops goes fields show ?thesis by blast
qed

theorem sampling_point_records_witness:
  "sampling_point 0 \<and>
   take_batch ex_run (heap_of ex_trainer0) 0 = (ex_heap_batch, 6, 7) \<and>
   L_model_forward (net ex_run) ex_heap_batch 6 (params ex_trainer0) False =
     Inr (ex_heap_batch_forward, 12, ex_batch_caches) \<and>
   predict (net ex_run) ex_heap_batch_forward (X_validation ex_run) (Y_validation ex_run)
     (params ex_trainer0) = Inr (ex_heap_sampled, Fin 1) \<and>
   compute_cost ex_heap_sampled 12 7 = Inr (Fin (ln 2)) \<and>
   \<not> within_epsilon (prev_val_acc ex_trainer0) (Fin 1) \<and>
   batch_body ex_run ex_trainer0 0 =
     Inr (False, ex_trainer0\<lparr>heap_of := ex_heap_trained, params := ex_params,
                   prev_val_acc := Fin 1, training_step := training_step ex_trainer0 + 1,
                   history := history ex_trainer0 @ [Fin (ln 2)],
                   accuracy_history := accuracy_history ex_trainer0 @ [Fin 1]\<rparr>) \<and>
   within_epsilon (prev_val_acc ex_trainer) (Fin 1) \<and>
   batch_body ex_run ex_trainer 0 =
     Inr (True, ex_trainer\<lparr>heap_of := ex_heap_sampled, converged := True\<rparr>)"
proof -
  have n: "net ex_run = ex_net" "learning_rate ex_run = 1" by (simp_all add: ex_run_def)
  have batch0: "take_batch ex_run (heap_of ex_trainer0) 0 = (ex_heap_batch, 6, 7)"
    using ex_take_batch by (simp add: ex_trainer0_def)
  have fwd0: "L_model_forward (net ex_run) ex_heap_batch 6 (params ex_trainer0) False =
                Inr (ex_heap_batch_forward, 12, ex_batch_caches)"
    using ex_batch_forward by (simp add: ex_run_def ex_trainer0_def)
  have acc0: "predict (net ex_run) ex_heap_batch_forward (X_validation ex_run)
                (Y_validation ex_run) (params ex_trainer0) = Inr (ex_heap_sampled, Fin 1)"
    using ex_predict by (simp add: ex_run_def ex_trainer0_def)
  have far: "\<not> within_epsilon (prev_val_acc ex_trainer0) (Fin 1)"
    by (simp add: ex_trainer0_def within_epsilon_inf)
  have p0: "params ex_trainer0 = ex_params" by (simp add: ex_trainer0_def)
  have first: "batch_body ex_run ex_trainer0 0 =
     Inr (False, ex_trainer0\<lparr>heap_of := ex_heap_trained, params := ex_params,
                   prev_val_acc := Fin 1, training_step := training_step ex_trainer0 + 1,
                   history := history ex_trainer0 @ [Fin (ln 2)],
                   accuracy_history := accuracy_history ex_trainer0 @ [Fin 1]\<rparr>)"
    unfolding sampling_point_records [OF batch0 fwd0 sampling_point_0 acc0 ex_cost,
        THEN conjunct2, THEN mp, OF far, THEN conjunct1]
    by (simp add: n p0 ex_train_backward ex_train_update thenE_def)
  have batch1: "take_batch ex_run (heap_of ex_trainer) 0 = (ex_heap_batch, 6, 7)"
    using ex_take_batch by (simp add: ex_trainer_def)
  have fwd1: "L_model_forward (net ex_run) ex_heap_batch 6 (params ex_trainer) False =
                Inr (ex_heap_batch_forward, 12, ex_batch_caches)"
    using ex_batch_forward by (simp add: ex_run_def ex_trainer_def)
  have acc1: "predict (net ex_run) ex_heap_batch_forward (X_validation ex_run)
                (Y_validation ex_run) (params ex_trainer) = Inr (ex_heap_sampled, Fin 1)"
    using ex_predict by (simp add: ex_run_def ex_trainer_def)
  have near: "within_epsilon (prev_val_acc ex_trainer) (Fin 1)"
    by (simp add: ex_trainer_def within_epsilon_def EPSILON_def)
  have second: "batch_body ex_run ex_trainer 0 =
     Inr (True, ex_trainer\<lparr>heap_of := ex_heap_sampled, converged := True\<rparr>)"
    by (rule sampling_point_records [OF batch1 fwd1 sampling_point_0 acc1 ex_cost,
          THEN conjunct1, THEN mp, OF near])
  from sampling_point_0 batch0 fwd0 acc0 ex_cost far first near second
  show ?thesis by (intro conjI)
qed

subsection \<open>The first sampling point\<close>

lemma sample_recorded:
  assumes s: "sample r t h z y = Inr (stop, t2)"
    and inv: "(\<exists>p. prev_val_acc t = Fin p) \<or> converged t \<Longrightarrow> recorded t"
  shows "recorded t2"
proof -
  from sample_outcome [OF s] obtain h1 acc cost where
    st: "stop = within_epsilon (prev_val_acc t) acc"
    and t2: "if stop
            then t2 = t\<lparr>heap_of := h1, converged := True\<rparr>
            else t2 = t\<lparr>heap_of := h1, prev_val_acc := acc,
                          training_step := training_step t + 1,
                          history := history t @ [cost],
                          accuracy_history := accuracy_history t @ [acc]\<rparr>"
    by blast
  show ?thesis
  proof (cases stop)
    case True
    with st have "\<exists>p. prev_val_acc t = Fin p" by (simp add: within_epsilon_finite)
    with inv have "recorded t" by simp
    with True t2 show ?thesis by (simp add: recorded_def)
  next
    case False
    with t2 show ?thesis by (simp add: recorded_def)
  qed
qed

lemma batch_body_recorded:
  assumes b: "batch_body r t index = Inr (stop, t1)"
    and inv: "(\<exists>p. prev_val_acc t = Fin p) \<or> converged t \<Longrightarrow> recorded t"
  shows "(\<exists>p. prev_val_acc t1 = Fin p) \<or> converged t1 \<Longrightarrow> recorded t1"
proof (cases "sampling_point index")
  case True
  with batch_body_fields [OF b] obtain h z y t2 where
    s: "sample r t h z y = Inr (stop, t2)"
    and f: "history t1 = history t2" "accuracy_history t1 = accuracy_history t2"
    by blast
  from sample_recorded [OF s inv] f show ?thesis by (simp add: recorded_def)
next
  case False
  assume a: "(\<exists>p. prev_val_acc t1 = Fin p) \<or> converged t1"
  from False batch_body_fields [OF b]
  have f: "prev_val_acc t1 = prev_val_acc t" "converged t1 = converged t"
    "history t1 = history t" "accuracy_history t1 = accuracy_history t"
    by simp_all
  with a inv show ?thesis by (simp add: recorded_def)
qed

lemma batch_loop_recorded:
  "batch_loop r starts t = Inr t' \<Longrightarrow>
   ((\<exists>p. prev_val_acc t = Fin p) \<or> converged t \<Longrightarrow> recorded t) \<Longrightarrow>
   (\<exists>p. prev_val_acc t' = Fin p) \<or> converged t' \<Longrightarrow> recorded t'"
proof (induction starts arbitrary: t)
  case Nil
  then show ?case by simp
next
  case (Cons index starts)
  from Cons.prems(1) obtain stop t1 where
    b: "batch_body r t index = Inr (stop, t1)"
    and rest: "if stop then t' = t1 else batch_loop r starts t1 = Inr t'"
    by (auto simp add: thenE_def split: sum.splits prod.splits if_splits)
  note step = batch_body_recorded [OF b Cons.prems(2)]
  show ?case
  proof (cases stop)
    case True
    with rest step Cons.prems(3) show ?thesis by simp
  next
    case False
    with rest have "batch_loop r starts t1 = Inr t'" by simp
    from Cons.IH [OF this step Cons.prems(3)] show ?thesis by simp
  qed
qed

lemma epoch_loop_recorded:
  "epoch_loop r epochs t = Inr t' \<Longrightarrow>
   ((\<exists>p. prev_val_acc t = Fin p) \<or> converged t \<Longrightarrow> recorded t) \<Longrightarrow>
   (\<exists>p. prev_val_acc t' = Fin p) \<or> converged t' \<Longrightarrow> recorded t'"
proof (induction epochs arbitrary: t)
  case Nil
  then show ?case by simp
next
  case (Cons epoch epochs)
  show ?case
  proof (cases "converged t")
    case True
    with Cons.prems(1) obtain h where "t' = t\<lparr>heap_of := h\<rparr>"
      by (auto simp add: thenE_def split: sum.splits)
    with Cons.prems(2) True show ?thesis by (simp add: recorded_def)
  next
    case False
    with Cons.prems(1) obtain starts t1 where
      l: "batch_loop r starts t = Inr t1" and e: "epoch_loop r epochs t1 = Inr t'"
      by (auto simp add: thenE_def split: sum.splits)
    note step = batch_loop_recorded [OF l Cons.prems(2)]
    from Cons.IH [OF e step Cons.prems(3)] show ?thesis by simp
  qed
qed

lemma unsampled_cannot_converge:
  assumes init: "prev_val_acc t = np_inf" "\<not> converged t" "accuracy_history t = []"
  shows "(\<forall>index stop t1. batch_body r t index = Inr (stop, t1) \<longrightarrow>
            \<not> stop \<and> \<not> converged t1) \<and>
         (\<forall>epochs t'. epoch_loop r epochs t = Inr t' \<and> converged t' \<longrightarrow>
            accuracy_history t' \<noteq> [] \<and> history t' \<noteq> [])"
proof -
  have a: "\<not> stop \<and> \<not> converged t1" if b: "batch_body r t index = Inr (stop, t1)"
    for index stop t1
  proof (cases "sampling_point index")
    case True
    with batch_body_fields [OF b] obtain h z y t2 where
      s: "sample r t h z y = Inr (stop, t2)" and c: "converged t1 = converged t2"
      by blast
    from sample_outcome [OF s] obtain h1 acc cost where
      st: "stop = within_epsilon (prev_val_acc t) acc"
      and t2: "if stop
            then t2 = t\<lparr>heap_of := h1, converged := True\<rparr>
            else t2 = t\<lparr>heap_of := h1, prev_val_acc := acc,
                          training_step := training_step t + 1,
                          history := history t @ [cost],
                          accuracy_history := accuracy_history t @ [acc]\<rparr>"
      by blast
    from st init(1) have ns: "\<not> stop" by (simp add: within_epsilon_inf)
    with t2 c init(2) show ?thesis by simp
  next
    case False
    with batch_body_fields [OF b] init(2) show ?thesis by simp
  qed
  have inv: "(\<exists>p. prev_val_acc t = Fin p) \<or> converged t \<Longrightarrow> recorded t"
    using init by (simp add: np_inf_def)
  have "accuracy_history t' \<noteq> [] \<and> history t' \<noteq> []"
    if "epoch_loop r epochs t = Inr t'" "converged t'" for epochs t'
    using epoch_loop_recorded [OF that(1) inv] that(2) by (simp add: recorded_def)
  with a show ?thesis by blast
qed

lemma L_layer_model_start:
  "L_layer_model g h X Y layers_dims lr num_iterations bs =
     thenE (start_training g h X Y layers_dims lr bs) (\<lambda>(r, t0).
     thenE (epoch_loop r (map nat (py_range 0 num_iterations)) t0) (\<lambda>t.
       Inr (heap_of t, params t, history t)))"
  by (simp add: L_layer_model_def start_training_def Let_def thenE_def
      split: sum.splits prod.splits)

lemma start_training_state:
  assumes "start_training g h X Y layers_dims lr bs = Inr (r, t0)"
  shows "prev_val_acc t0 = np_inf \<and> \<not> converged t0 \<and> training_step t0 = 0 \<and>
         history t0 = [] \<and> accuracy_history t0 = [] \<and>
         learning_rate r = lr \<and> batch_size r = bs"
  using assms
  by (auto simp add: start_training_def Let_def thenE_def split: sum.splits prod.splits)

lemma ex2_start:
  "start_training ex_rng ex2_heap 0 1 [1, 2] 1 1 = Inr (ex2_run, ex2_trainer0)"
  apply (simp only: start_training_def Let_def)
  apply (simp add: take_columns_def np_eval upt_unfold ex_rng_def ex2_heap_def
     del: init_loop.simps cong: thenE_weak_cong case_prod_weak_cong)
  apply (simp add: init_eval np_eval upt_unfold
     cong: thenE_weak_cong case_prod_weak_cong)
  apply (simp add: ex2_run_def ex2_trainer0_def ex2_net_def ex2_params_def
     ex2_heap_init_def ex2_heap_def)
  done

text \<open>
  Claim C10.  \<open>L_layer_model\<close> is \<open>start_training\<close> followed by the loops, and the state
  \<open>start_training\<close> hands to the loops has the previous accuracy \<open>np_inf\<close>, is not
  converged and has empty histories.  From that state no pass through the body breaks or
  sets \<open>converged\<close>, so the first sampling point of a run cannot converge; and whenever
  the epoch loop of the run ends converged, a sample has been recorded before, so
  convergence happens at the second sampling point at the earliest.
\<close>

theorem first_sampling_point_cannot_converge:
  "L_layer_model g h X Y layers_dims lr num_iterations bs =
     thenE (start_training g h X Y layers_dims lr bs) (\<lambda>(r, t0).
     thenE (epoch_loop r (map nat (py_range 0 num_iterations)) t0) (\<lambda>t.
       Inr (heap_of t, params t, history t))) \<and>
   (\<forall>r t0. start_training g h X Y layers_dims lr bs = Inr (r, t0) \<longrightarrow>
      prev_val_acc t0 = np_inf \<and> \<not> converged t0 \<and>
      history t0 = [] \<and> accuracy_history t0 = [] \<and>
      (\<forall>index stop t1. batch_body r t0 index = Inr (stop, t1) \<longrightarrow>
         \<not> stop \<and> \<not> converged t1) \<and>
      (\<forall>epochs t'. epoch_loop r epochs t0 = Inr t' \<and> converged t' \<longrightarrow>
         accuracy_history t' \<noteq> [] \<and> history t' \<noteq> []))"
proof -
  have "prev_val_acc t0 = np_inf \<and> \<not> converged t0 \<and>
      history t0 = [] \<and> accuracy_history t0 = [] \<and>
      (\<forall>index stop t1. batch_body r t0 index = Inr (stop, t1) \<longrightarrow>
         \<not> stop \<and> \<not> converged t1) \<and>
      (\<forall>epochs t'. epoch_loop r epochs t0 = Inr t' \<and> converged t' \<longrightarrow>
         accuracy_history t' \<noteq> [] \<and> history t' \<noteq> [])"
    if s: "start_training g h X Y layers_dims lr bs = Inr (r, t0)" for r t0
  proof -
    from start_training_state [OF s]
    have init: "prev_val_acc t0 = np_inf" "\<not> converged t0" "accuracy_history t0 = []"
      and hist: "history t0 = []"
      by simp_all
    from unsampled_cannot_converge [OF init, of r] init hist show ?thesis
      by (intro conjI) blast+
  qed
  then have "\<forall>r t0. start_training g h X Y layers_dims lr bs = Inr (r, t0) \<longrightarrow>
      prev_val_acc t0 = np_inf \<and> \<not> converged t0 \<and>
      history t0 = [] \<and> accuracy_history t0 = [] \<and>
      (\<forall>index stop t1. batch_body r t0 index = Inr (stop, t1) \<longrightarrow>
         \<not> stop \<and> \<not> converged t1) \<and>
      (\<forall>epochs t'. epoch_loop r epochs t0 = Inr t' \<and> converged t' \<longrightarrow>
         accuracy_history t' \<noteq> [] \<and> history t' \<noteq> [])"
    by blast
  with L_layer_model_start [of g h X Y layers_dims lr num_iterations bs]
  show ?thesis by (rule conjI)
qed

theorem first_sampling_point_cannot_converge_witness:
  "start_training ex_rng ex2_heap 0 1 [1, 2] 1 1 = Inr (ex2_run, ex2_trainer0) \<and>
   prev_val_acc ex2_trainer0 = np_inf \<and> sampling_point 0 \<and>
   batch_body ex2_run ex2_trainer0 0 = Inr (False, ex2_trainer1) \<and>
   \<not> converged ex2_trainer1 \<and>
   epoch_loop ex2_run [0, 1, 2] ex2_trainer0 =
     Inr (ex2_trainer1\<lparr>heap_of := ex2_heap_end, converged := True\<rparr>) \<and>
   history (ex2_trainer1\<lparr>heap_of := ex2_heap_end, converged := True\<rparr>) \<noteq> []"
proof -
  note first = first_sampling_point_cannot_converge
    [of ex_rng ex2_heap 0 1 "[1, 2]" 1 3 1, THEN conjunct2, rule_format, OF ex2_start]
  have inf: "prev_val_acc ex2_trainer0 = np_inf"
    by (rule first [THEN conjunct1])
  have body: "\<forall>index stop t1. batch_body ex2_run ex2_trainer0 index = Inr (stop, t1) \<longrightarrow>
                \<not> stop \<and> \<not> converged t1"
    by (rule first [THEN conjunct2, THEN conjunct2, THEN conjunct2, THEN conjunct2,
          THEN conjunct1])
  have ends: "\<forall>epochs t'. epoch_loop ex2_run epochs ex2_trainer0 = Inr t' \<and> converged t' \<longrightarrow>
                accuracy_history t' \<noteq> [] \<and> history t' \<noteq> []"
    by (rule first [THEN conjunct2, THEN conjunct2, THEN conjunct2, THEN conjunct2,
          THEN conjunct2])
  from body ex2_body0 have nc: "\<not> converged ex2_trainer1" by blast
  have c: "converged (ex2_trainer1\<lparr>heap_of := ex2_heap_end, converged := True\<rparr>)" by simp
  from ends ex2_epochs c
  have h: "history (ex2_trainer1\<lparr>heap_of := ex2_heap_end, converged := True\<rparr>) \<noteq> []"
    by blast
  from ex2_start inf sampling_point_0 ex2_body0 nc ex2_epochs h
  show ?thesis by (intro conjI)
qed

end
